theory Spec2Isabelle
  imports Complex_Main "HOL-Library.Log_Nat"
begin

section \<open>JavaScript values\<close>

text \<open>
  The client is TypeScript, but the control messages it reacts to are whatever
  \<^verbatim>\<open>JSON.parse\<close> returns (type \<^verbatim>\<open>any\<close>), and the handlers store
  the fields of a message in the UI state without checking them. So the model keeps
  JavaScript's values and the few operators the handlers apply to them.

  A JavaScript number is a double: NaN, one of the two infinities, or a finite value,
  which is a rational number. The two zeros are one. Numbers known to be whole (the
  result of \<^verbatim>\<open>Math.ceil\<close>) are kept as \<open>int number\<close>, the others as
  \<open>rat number\<close>. The result of \<^verbatim>\<open>+\<close>, \<^verbatim>\<open>-\<close>, \<^verbatim>\<open>*\<close> and
  \<^verbatim>\<open>/\<close> on finite numbers is the exact result rounded to the nearest double
  (\<open>round_double\<close> below), as IEEE 754 has it.
\<close>

datatype 'a number = Fin 'a | NaN | PosInf | NegInf

datatype jsval =
    Undefined
  | Null
  | Bool bool
  | Num "rat number"
  | Str string
  | Arr "jsval list"
  | Obj "(string \<times> jsval) list"

datatype error = TypeError

subsection \<open>Rounding to a double\<close>

text \<open>
  Rounding to the nearest whole number, a tie going to the even one.
\<close>

definition rne :: "rat \<Rightarrow> int" where
  "rne t = (let f = \<lfloor>t\<rfloor>; d = t - of_int f
            in if d < 1 / 2 then f else if 1 / 2 < d then f + 1
               else if even f then f else f + 1)"

text \<open>
  The binary exponent of a positive number \<open>x\<close>, the \<open>e\<close> with
  \<^verbatim>\<open>2^e <= x < 2^(e+1)\<close>; and the distance between neighbouring doubles at
  \<open>x\<close>: 53 significant bits, the exponent not below -1022 (below that the doubles are
  the multiples of \<^verbatim>\<open>2^-1074\<close>).
\<close>

definition ilog2 :: "rat \<Rightarrow> int" where
  "ilog2 x = (if 1 \<le> x then bitlen \<lfloor>x\<rfloor> - 1 else - bitlen (\<lceil>1 / x\<rceil> - 1))"

definition ulp :: "rat \<Rightarrow> rat" where
  "ulp x = 2 powi (max (ilog2 \<bar>x\<bar>) (- 1022) - 52)"

text \<open>
  The double nearest to \<open>x\<close> (ties to the even significand), which is an infinity
  when the rounded value reaches \<^verbatim>\<open>2^1024\<close>; and the finite numbers that are
  doubles.
\<close>

definition round_double :: "rat \<Rightarrow> rat number" where
  "round_double x =
     (if x = 0 then Fin 0
      else let r = of_int (rne (x / ulp x)) * ulp x
           in if 2 powi 1024 \<le> \<bar>r\<bar> then (if 0 < x then PosInf else NegInf) else Fin r)"

definition is_double :: "rat \<Rightarrow> bool" where
  "is_double x = (round_double x = Fin x)"

subsection \<open>Arithmetic\<close>

text \<open>The implicit conversion of a whole number where a general number is expected.\<close>

fun to_rat :: "int number \<Rightarrow> rat number" where
  "to_rat (Fin i) = Fin (of_int i)"
| "to_rat NaN = NaN"
| "to_rat PosInf = PosInf"
| "to_rat NegInf = NegInf"

text \<open>\<^verbatim>\<open>a + b\<close> and \<^verbatim>\<open>a - b\<close> on two numbers.\<close>

fun js_add :: "rat number \<Rightarrow> rat number \<Rightarrow> rat number" where
  "js_add NaN _ = NaN"
| "js_add _ NaN = NaN"
| "js_add (Fin a) (Fin b) = round_double (a + b)"
| "js_add PosInf NegInf = NaN"
| "js_add NegInf PosInf = NaN"
| "js_add PosInf _ = PosInf"
| "js_add NegInf _ = NegInf"
| "js_add (Fin a) PosInf = PosInf"
| "js_add (Fin a) NegInf = NegInf"

fun js_neg :: "rat number \<Rightarrow> rat number" where
  "js_neg (Fin a) = Fin (- a)"
| "js_neg NaN = NaN"
| "js_neg PosInf = NegInf"
| "js_neg NegInf = PosInf"

definition js_sub :: "rat number \<Rightarrow> rat number \<Rightarrow> rat number" where
  "js_sub a b = js_add a (js_neg b)"

text \<open>
  \<^verbatim>\<open>a * c\<close> and \<^verbatim>\<open>a / c\<close> where \<open>c\<close> is a positive literal of the
  program (1000 and 60, both doubles): NaN and the infinities are kept.
\<close>

fun js_times :: "rat number \<Rightarrow> rat \<Rightarrow> rat number" where
  "js_times (Fin a) c = round_double (a * c)"
| "js_times NaN c = NaN"
| "js_times PosInf c = PosInf"
| "js_times NegInf c = NegInf"

fun js_over :: "rat number \<Rightarrow> rat \<Rightarrow> rat number" where
  "js_over (Fin a) c = round_double (a / c)"
| "js_over NaN c = NaN"
| "js_over PosInf c = PosInf"
| "js_over NegInf c = NegInf"

text \<open>
  \<^verbatim>\<open>a % c\<close> for a positive whole literal \<open>c\<close>: the remainder has the sign of
  the dividend, and it is NaN when the dividend is not finite. The remainder of two
  doubles is a double, so nothing is rounded.
\<close>

fun js_rem :: "int number \<Rightarrow> int \<Rightarrow> int number" where
  "js_rem (Fin a) c = Fin (sgn a * (\<bar>a\<bar> mod c))"
| "js_rem NaN c = NaN"
| "js_rem PosInf c = NaN"
| "js_rem NegInf c = NaN"

fun Math_ceil :: "rat number \<Rightarrow> int number" where
  "Math_ceil (Fin a) = Fin \<lceil>a\<rceil>"
| "Math_ceil NaN = NaN"
| "Math_ceil PosInf = PosInf"
| "Math_ceil NegInf = NegInf"

fun Math_floor :: "rat number \<Rightarrow> int number" where
  "Math_floor (Fin a) = Fin \<lfloor>a\<rfloor>"
| "Math_floor NaN = NaN"
| "Math_floor PosInf = PosInf"
| "Math_floor NegInf = NegInf"

fun Math_max :: "int number \<Rightarrow> int number \<Rightarrow> int number" where
  "Math_max NaN _ = NaN"
| "Math_max _ NaN = NaN"
| "Math_max PosInf _ = PosInf"
| "Math_max _ PosInf = PosInf"
| "Math_max NegInf b = b"
| "Math_max a NegInf = a"
| "Math_max (Fin a) (Fin b) = Fin (max a b)"

text \<open>\<^verbatim>\<open>a <= b\<close> and \<^verbatim>\<open>a > b\<close>: every comparison with NaN is false.\<close>

fun js_le :: "rat number \<Rightarrow> rat number \<Rightarrow> bool" where
  "js_le NaN _ = False"
| "js_le _ NaN = False"
| "js_le NegInf _ = True"
| "js_le _ PosInf = True"
| "js_le PosInf _ = False"
| "js_le _ NegInf = False"
| "js_le (Fin a) (Fin b) = (a \<le> b)"

fun js_gt :: "rat number \<Rightarrow> rat number \<Rightarrow> bool" where
  "js_gt NaN _ = False"
| "js_gt _ NaN = False"
| "js_gt NegInf _ = False"
| "js_gt _ PosInf = False"
| "js_gt PosInf _ = True"
| "js_gt _ NegInf = True"
| "js_gt (Fin a) (Fin b) = (a > b)"

subsection \<open>Printing a whole number\<close>

definition digit_char :: "nat \<Rightarrow> char" where
  "digit_char d = char_of (48 + d)"

fun digits :: "nat \<Rightarrow> string" where
  "digits n = (if n < 10 then [digit_char n] else digits (n div 10) @ [digit_char (n mod 10)])"

declare digits.simps [simp del]

text \<open>
  \<^verbatim>\<open>n.toString()\<close> for a whole number. Up to \<^verbatim>\<open>2^53\<close> every whole number is
  a double and the text is its decimal digits. Beyond, the text is the shortest digit
  string that reads back as the same double, padded with zeros, and in exponent
  notation from \<^verbatim>\<open>10^21\<close>: that is the language's, taken as the parameter
  \<open>big\<close>.
\<close>

fun toString :: "(int \<Rightarrow> string) \<Rightarrow> int number \<Rightarrow> string" where
  "toString big (Fin i) =
     (if \<bar>i\<bar> \<le> 2 ^ 53
      then (if i < 0 then CHR ''-'' # digits (nat (- i)) else digits (nat i))
      else big i)"
| "toString big NaN = ''NaN''"
| "toString big PosInf = ''Infinity''"
| "toString big NegInf = ''-Infinity''"

text \<open>\<^verbatim>\<open>s.padStart(n, c)\<close> with a one-character filler.\<close>

definition padStart :: "nat \<Rightarrow> char \<Rightarrow> string \<Rightarrow> string" where
  "padStart n c s = replicate (n - length s) c @ s"

section \<open>Timers\<close>

text \<open>
  \<^verbatim>\<open>
  function formatTimeLeft(endsAt: number): string {
    const left = Math.max(0, Math.ceil((endsAt - Date.now()) / 1000));
    const m = Math.floor(left / 60);
    const s = left % 60;
    return `${m}:${s.toString().padStart(2, "0")}`;
  }
  \<close>
  \<^verbatim>\<open>Date.now()\<close> is a whole number of milliseconds, passed as \<open>now\<close>.
\<close>

definition formatTimeLeft :: "(int \<Rightarrow> string) \<Rightarrow> rat number \<Rightarrow> int \<Rightarrow> string" where
  "formatTimeLeft big endsAt now =
     (let left = Math_max (Fin 0) (Math_ceil (js_over (js_sub endsAt (Fin (of_int now))) 1000));
          m = Math_floor (js_over (to_rat left) 60);
          s = js_rem left 60
      in toString big m @ '':'' @ padStart 2 (CHR ''0'') (toString big s))"


text \<open>
  A timer as \<^verbatim>\<open>addTimer\<close> builds it. Its label and duration are the message's
  fields as they came; \<open>timer_id\<close> is the field \<^verbatim>\<open>id\<close>.
\<close>

record timer =
  timer_id :: nat
  label :: jsval
  endsAt :: "rat number"
  duration :: jsval

section \<open>Recipes and grocery lists\<close>

text \<open>
  The optional fields of a recipe hold \<open>Undefined\<close> when they are not set. The
  fields of a grocery item are \<^verbatim>\<open>recipe\<close>, \<^verbatim>\<open>ingredients\<close> and
  \<^verbatim>\<open>checked\<close>.
\<close>

record recipe =
  title :: jsval
  servings :: jsval
  prepTimeMinutes :: jsval
  ingredients :: jsval
  steps :: jsval
  currentStep :: jsval
  tutorialUrl :: jsval
  tutorialTitle :: jsval
  tutorialSource :: jsval
  ogImage :: jsval
  ogTitle :: jsval
  ogDescription :: jsval

record grocery_item =
  item_recipe :: jsval
  item_ingredients :: jsval
  checked :: jsval

section \<open>The UI state\<close>

text \<open>
  The state of \<^verbatim>\<open>useTimers\<close> (the timers and the id counter, a JavaScript
  number counted up from 0 and modelled as a natural number) and of
  \<^verbatim>\<open>VoiceAssistantUI\<close>.
\<close>

record ui_state =
  timers :: "timer list"
  nextId :: nat
  cameraRequest :: bool
  recipe :: "recipe option"
  dishSuggestions :: jsval
  groceryList :: "grocery_item list"
  groceryListOpen :: bool

subsection \<open>Operators on values\<close>

text \<open>Truthiness, and \<^verbatim>\<open>a || b\<close>.\<close>

fun truthy :: "jsval \<Rightarrow> bool" where
  "truthy Undefined = False"
| "truthy Null = False"
| "truthy (Bool b) = b"
| "truthy (Num n) = (n \<noteq> Fin 0 \<and> n \<noteq> NaN)"
| "truthy (Str s) = (s \<noteq> [])"
| "truthy (Arr xs) = True"
| "truthy (Obj kvs) = True"

definition js_or :: "jsval \<Rightarrow> jsval \<Rightarrow> jsval" where
  "js_or a b = (if truthy a then a else b)"

text \<open>
  Reading a property \<^verbatim>\<open>v.k\<close>. An object is the list of its own properties, the
  first entry of a key being its value. None of the names this program reads
  (\<^verbatim>\<open>type\<close>, \<^verbatim>\<open>title\<close>, \<^verbatim>\<open>items\<close>, ...) is defined on a builtin
  prototype, so on anything else than an object with that key the value is
  \<^verbatim>\<open>undefined\<close>; on \<^verbatim>\<open>null\<close> and \<^verbatim>\<open>undefined\<close> the read throws.
\<close>

fun own_prop :: "jsval \<Rightarrow> string \<Rightarrow> jsval" where
  "own_prop (Obj kvs) k = (case map_of kvs k of Some v \<Rightarrow> v | None \<Rightarrow> Undefined)"
| "own_prop v k = Undefined"

definition nullish :: "jsval \<Rightarrow> bool" where
  "nullish v = (v = Null \<or> v = Undefined)"

definition js_get :: "jsval \<Rightarrow> string \<Rightarrow> error + jsval" where
  "js_get v k = (if nullish v then Inl TypeError else Inr (own_prop v k))"

text \<open>
  The conversion of an operand of \<^verbatim>\<open>*\<close> to a number. The conversion of a string
  (its numeric grammar) and of an array or object (through its string) is the language's
  and is taken as the parameter \<open>conv\<close>.
\<close>

fun ToNumber :: "(jsval \<Rightarrow> rat number) \<Rightarrow> jsval \<Rightarrow> rat number" where
  "ToNumber conv Undefined = NaN"
| "ToNumber conv Null = Fin 0"
| "ToNumber conv (Bool b) = Fin (if b then 1 else 0)"
| "ToNumber conv (Num n) = n"
| "ToNumber conv (Str s) = conv (Str s)"
| "ToNumber conv (Arr xs) = conv (Arr xs)"
| "ToNumber conv (Obj kvs) = conv (Obj kvs)"

subsection \<open>useTimers\<close>

text \<open>
  \<^verbatim>\<open>
  setTimers((prev) => [...prev,
    { id: nextId.current++, label,
      endsAt: Date.now() + durationSeconds * 1000, duration: durationSeconds }]);
  \<close>
\<close>

definition addTimer :: "(jsval \<Rightarrow> rat number) \<Rightarrow> int \<Rightarrow> jsval \<Rightarrow> jsval \<Rightarrow> ui_state \<Rightarrow> ui_state" where
  "addTimer conv now lbl durationSeconds st =
     st\<lparr>timers := timers st @
            [\<lparr>timer_id = nextId st,
              label = lbl,
              endsAt = js_add (Fin (of_int now)) (js_times (ToNumber conv durationSeconds) 1000),
              duration = durationSeconds\<rparr>],
        nextId := nextId st + 1\<rparr>"

text \<open>\<^verbatim>\<open>setTimers((prev) => prev.filter((t) => t.id !== id))\<close>\<close>

definition dismissTimer :: "nat \<Rightarrow> ui_state \<Rightarrow> ui_state" where
  "dismissTimer i st = st\<lparr>timers := filter (\<lambda>t. timer_id t \<noteq> i) (timers st)\<rparr>"

text \<open>
  The effect that checks for expired timers, run at time \<open>now\<close>: it returns the labels
  the alarm is played for, in order, and the state.
  \<^verbatim>\<open>
  const now = Date.now();
  const expired = timers.filter((t) => t.endsAt <= now);
  if (expired.length > 0) {
    expired.forEach((t) => playAlarm(t.label));
    setTimers((prev) => prev.filter((t) => t.endsAt > now));
  }
  \<close>
  The update is applied to the list the effect looked at. When React runs the effect
  (its dependency list is \<^verbatim>\<open>[timers]\<close>) is not part of the model: the
  function is one run of it.
\<close>

definition expiry_check :: "int \<Rightarrow> ui_state \<Rightarrow> jsval list \<times> ui_state" where
  "expiry_check now st =
     (let expired = filter (\<lambda>t. js_le (endsAt t) (Fin (of_int now))) (timers st)
      in if length expired > 0
         then (map label expired,
               st\<lparr>timers := filter (\<lambda>t. js_gt (endsAt t) (Fin (of_int now))) (timers st)\<rparr>)
         else ([], st))"

subsection \<open>The data handler\<close>

text \<open>
  \<^verbatim>\<open>(msg.items || []).map((item: any) => ({ recipe: item.recipe || "", ... }))\<close>:
  only an array has \<^verbatim>\<open>map\<close>, so on any other value the call throws, and so does
  reading a property of an item that is \<^verbatim>\<open>null\<close>.
\<close>

fun map_err :: "('a \<Rightarrow> error + 'b) \<Rightarrow> 'a list \<Rightarrow> error + 'b list" where
  "map_err f [] = Inr []"
| "map_err f (x # xs) =
     (case f x of
        Inl e \<Rightarrow> Inl e
      | Inr y \<Rightarrow> (case map_err f xs of Inl e \<Rightarrow> Inl e | Inr ys \<Rightarrow> Inr (y # ys)))"

fun array_map :: "(jsval \<Rightarrow> error + 'b) \<Rightarrow> jsval \<Rightarrow> error + 'b list" where
  "array_map f (Arr xs) = map_err f xs"
| "array_map f v = Inl TypeError"

definition to_grocery_item :: "jsval \<Rightarrow> error + grocery_item" where
  "to_grocery_item item =
     (if nullish item then Inl TypeError
      else Inr \<lparr>item_recipe = js_or (own_prop item ''recipe'') (Str []),
                item_ingredients = js_or (own_prop item ''ingredients'') (Arr []),
                checked = js_or (own_prop item ''checked'') (Arr [])\<rparr>)"

text \<open>\<^verbatim>\<open>msg.type === t\<close>, which throws when \<open>msg\<close> is \<^verbatim>\<open>null\<close>.\<close>

definition type_is :: "jsval \<Rightarrow> string \<Rightarrow> error + bool" where
  "type_is msg t = (case js_get msg ''type'' of Inl e \<Rightarrow> Inl e | Inr ty \<Rightarrow> Inr (ty = Str t))"

text \<open>
  The branch \<^verbatim>\<open>topic === "recipe"\<close>. Once \<^verbatim>\<open>msg.type\<close> has been read,
  \<open>msg\<close> is not \<^verbatim>\<open>null\<close> and its other properties are read with \<open>own_prop\<close>.
\<close>

definition recipe_branch :: "jsval \<Rightarrow> ui_state \<Rightarrow> error + ui_state" where
  "recipe_branch msg st =
     (case js_get msg ''type'' of
        Inl e \<Rightarrow> Inl e
      | Inr ty \<Rightarrow>
          if ty = Str ''recipe_start'' then
            Inr (st\<lparr>recipe := Some
                       \<lparr>title = own_prop msg ''title'',
                        servings = js_or (own_prop msg ''servings'') (Num (Fin 1)),
                        prepTimeMinutes = js_or (own_prop msg ''prep_time_minutes'') (Num (Fin 0)),
                        ingredients = js_or (own_prop msg ''ingredients'') (Arr []),
                        steps = js_or (own_prop msg ''steps'') (Arr []),
                        currentStep = Undefined,
                        tutorialUrl = Undefined,
                        tutorialTitle = Undefined,
                        tutorialSource = Undefined,
                        ogImage = Undefined,
                        ogTitle = Undefined,
                        ogDescription = Undefined\<rparr>,
                   dishSuggestions := Arr []\<rparr>)
          else if ty = Str ''recipe_refresh'' then
            Inr (st\<lparr>recipe :=
                   (case recipe st of
                      Some prev \<Rightarrow>
                        Some (prev\<lparr>title := js_or (own_prop msg ''title'') (title prev),
                                    ingredients := js_or (own_prop msg ''ingredients'') (ingredients prev),
                                    steps := js_or (own_prop msg ''steps'') (steps prev)\<rparr>)
                    | None \<Rightarrow> None)\<rparr>)
          else if ty = Str ''step_update'' then
            Inr (st\<lparr>recipe :=
                   (case recipe st of
                      Some prev \<Rightarrow> Some (prev\<lparr>currentStep := own_prop msg ''step_number''\<rparr>)
                    | None \<Rightarrow> None)\<rparr>)
          else if ty = Str ''recipe_update'' then
            Inr (st\<lparr>recipe :=
                   (case recipe st of
                      Some prev \<Rightarrow>
                        Some (prev\<lparr>tutorialUrl := own_prop msg ''tutorial_url'',
                                    tutorialTitle := own_prop msg ''tutorial_title'',
                                    tutorialSource := own_prop msg ''tutorial_source'',
                                    ogImage := own_prop msg ''og_image'',
                                    ogTitle := own_prop msg ''og_title'',
                                    ogDescription := own_prop msg ''og_description''\<rparr>)
                    | None \<Rightarrow> None)\<rparr>)
          else if ty = Str ''recipe_end'' then Inr (st\<lparr>recipe := None\<rparr>)
          else Inr st)"

text \<open>
  The branch \<^verbatim>\<open>topic === "grocery_list"\<close>: two statements, the second one reached
  only when the first one has not thrown.
\<close>

definition grocery_branch :: "jsval \<Rightarrow> ui_state \<Rightarrow> error + ui_state" where
  "grocery_branch msg st =
     (case js_get msg ''type'' of
        Inl e \<Rightarrow> Inl e
      | Inr ty \<Rightarrow>
          (case (if ty = Str ''grocery_list_update'' \<or> ty = Str ''grocery_list_show''
                 then (case array_map to_grocery_item (js_or (own_prop msg ''items'') (Arr [])) of
                         Inl e \<Rightarrow> Inl e
                       | Inr items \<Rightarrow> Inr (st\<lparr>groceryList := items\<rparr>))
                 else Inr st) of
             Inl e \<Rightarrow> Inl e
           | Inr st1 \<Rightarrow>
               Inr (if ty = Str ''grocery_list_show'' then st1\<lparr>groceryListOpen := True\<rparr> else st1)))"

text \<open>
  The body of the \<^verbatim>\<open>try\<close> block, after \<^verbatim>\<open>JSON.parse\<close> has returned \<open>msg\<close>.
  A condition \<^verbatim>\<open>topic === t && msg.type === u\<close> reads \<^verbatim>\<open>msg.type\<close> only when
  the topic is \<open>t\<close>. The topic is \<^verbatim>\<open>string | undefined\<close>.
\<close>

definition topic_and_type :: "string option \<Rightarrow> string \<Rightarrow> jsval \<Rightarrow> string \<Rightarrow> error + bool" where
  "topic_and_type topic t msg u = (if topic = Some t then type_is msg u else Inr False)"

definition try_body :: "(jsval \<Rightarrow> rat number) \<Rightarrow> int \<Rightarrow> jsval \<Rightarrow> string option \<Rightarrow> ui_state \<Rightarrow> error + ui_state" where
  "try_body conv now msg topic st =
     (case topic_and_type topic ''timer'' msg ''set_timer'' of
        Inl e \<Rightarrow> Inl e
      | Inr True \<Rightarrow>
          Inr (addTimer conv now (own_prop msg ''label'') (own_prop msg ''duration_seconds'') st)
      | Inr False \<Rightarrow>
     (case topic_and_type topic ''camera_request'' msg ''request_camera'' of
        Inl e \<Rightarrow> Inl e
      | Inr True \<Rightarrow> Inr (st\<lparr>cameraRequest := True\<rparr>)
      | Inr False \<Rightarrow>
          if topic = Some ''recipe'' then recipe_branch msg st
          else
     (case topic_and_type topic ''suggestions'' msg ''dish_suggestions'' of
        Inl e \<Rightarrow> Inl e
      | Inr True \<Rightarrow> Inr (st\<lparr>dishSuggestions := js_or (own_prop msg ''options'') (Arr [])\<rparr>)
      | Inr False \<Rightarrow>
          if topic = Some ''grocery_list'' then grocery_branch msg st
          else Inr st)))"

text \<open>
  \<^verbatim>\<open>handleData\<close>. Its argument \<open>parsed\<close> is the outcome of
  \<^verbatim>\<open>JSON.parse(new TextDecoder().decode(payload))\<close>: \<open>None\<close> when the text is not
  JSON and the parser throws, the value otherwise. The \<^verbatim>\<open>catch\<close> ignores whatever
  was thrown; no state setter has been called by then, since each one is the last thing
  its branch does before a throw is possible.
\<close>

definition handleData :: "(jsval \<Rightarrow> rat number) \<Rightarrow> int \<Rightarrow> jsval option \<Rightarrow> string option \<Rightarrow> ui_state \<Rightarrow> ui_state" where
  "handleData conv now parsed topic st =
     (case parsed of
        None \<Rightarrow> st
      | Some msg \<Rightarrow> (case try_body conv now msg topic st of Inl e \<Rightarrow> st | Inr st' \<Rightarrow> st'))"

subsection \<open>toggleGroceryItem\<close>

text \<open>\<^verbatim>\<open>s.includes(t)\<close> on a string: \<open>t\<close> occurs in \<open>s\<close>.\<close>

fun str_includes :: "string \<Rightarrow> string \<Rightarrow> bool" where
  "str_includes [] t = (t = [])"
| "str_includes (c # cs) t = (take (length t) (c # cs) = t \<or> str_includes cs t)"

text \<open>
  The update function that \<^verbatim>\<open>toggleGroceryItem\<close> passes to
  \<^verbatim>\<open>setGroceryList\<close>, applied to the list \<open>prev\<close>:
  \<^verbatim>\<open>
  const updated = [...prev];
  const group = { ...updated[recipeIdx] };
  if (group.checked.includes(ingredient)) {
    group.checked = group.checked.filter((c) => c !== ingredient);
  } else {
    group.checked = [...group.checked, ingredient];
  }
  updated[recipeIdx] = group;
  return updated;
  \<close>
  Past the end of the list \<^verbatim>\<open>group\<close> is the empty object and
  \<^verbatim>\<open>group.checked.includes\<close> throws. The field \<^verbatim>\<open>checked\<close> is whatever the
  message carried: an array has \<^verbatim>\<open>includes\<close> and \<^verbatim>\<open>filter\<close>; a string has
  \<^verbatim>\<open>includes\<close> only and spreads into its characters; on anything else the call
  throws.
\<close>

definition toggleGroceryItem :: "nat \<Rightarrow> string \<Rightarrow> grocery_item list \<Rightarrow> error + grocery_item list" where
  "toggleGroceryItem recipeIdx ingredient prev =
     (if recipeIdx < length prev then
        (let group = prev ! recipeIdx in
         case checked group of
           Arr cs \<Rightarrow>
             if Str ingredient \<in> set cs
             then Inr (prev[recipeIdx := group\<lparr>checked := Arr (filter (\<lambda>c. c \<noteq> Str ingredient) cs)\<rparr>])
             else Inr (prev[recipeIdx := group\<lparr>checked := Arr (cs @ [Str ingredient])\<rparr>])
         | Str s \<Rightarrow>
             if str_includes s ingredient then Inl TypeError
             else Inr (prev[recipeIdx := group\<lparr>checked := Arr (map (\<lambda>c. Str [c]) s @ [Str ingredient])\<rparr>])
         | _ \<Rightarrow> Inl TypeError)
      else Inl TypeError)"

section \<open>The token endpoint\<close>

text \<open>
  The three environment variables are \<^verbatim>\<open>string | undefined\<close>. The token is made
  by the SDK's \<^verbatim>\<open>AccessToken\<close>, taken as the parameter \<open>toJwt\<close>: a function of the
  key, the secret, the identity and the grant. \<open>GET\<close> returns the response and the
  list of the tokens it had the SDK make (\<open>accessToken\<close> is the source's \<^verbatim>\<open>at\<close>). \<open>big\<close>
  is the parameter of \<open>toString\<close>. \<^verbatim>\<open>Date.now()\<close> is \<open>now\<close> and
  \<^verbatim>\<open>Math.random().toString(36).slice(2, 7)\<close> is \<open>rnd\<close>.
\<close>

record env =
  LIVEKIT_API_KEY :: "string option"
  LIVEKIT_API_SECRET :: "string option"
  LIVEKIT_URL :: "string option"

record grant =
  roomJoin :: bool
  room :: string
  canPublish :: bool
  canSubscribe :: bool

record access_token =
  apiKey :: string
  apiSecret :: string
  identity :: string
  grants :: "grant list"

record response =
  status :: nat
  body :: jsval

text \<open>\<^verbatim>\<open>!v\<close> for a \<^verbatim>\<open>string | undefined\<close>.\<close>

fun unset :: "string option \<Rightarrow> bool" where
  "unset None = True"
| "unset (Some s) = (s = [])"

definition GET :: "(access_token \<Rightarrow> string) \<Rightarrow> (int \<Rightarrow> string) \<Rightarrow> int \<Rightarrow> string \<Rightarrow> env \<Rightarrow> response \<times> access_token list" where
  "GET toJwt big now rnd e =
     (if unset (LIVEKIT_API_KEY e) \<or> unset (LIVEKIT_API_SECRET e) \<or> unset (LIVEKIT_URL e) then
        (\<lparr>status = 500, body = Obj [(''error'', Str ''LiveKit credentials not configured'')]\<rparr>, [])
      else
        (let roomName = ''chef-claude-'' @ toString big (Fin now);
             participantName = ''user-'' @ rnd;
             accessToken = \<lparr>apiKey = the (LIVEKIT_API_KEY e),
                   apiSecret = the (LIVEKIT_API_SECRET e),
                   identity = participantName,
                   grants = [\<lparr>roomJoin = True, room = roomName,
                              canPublish = True, canSubscribe = True\<rparr>]\<rparr>;
             token = toJwt accessToken
         in (\<lparr>status = 200, body = Obj [(''token'', Str token), (''url'', Str (the (LIVEKIT_URL e)))]\<rparr>,
             [accessToken])))"

section \<open>Initial state and invariant\<close>

text \<open>
  The state on mount: \<^verbatim>\<open>useState<Timer[]>([])\<close>, \<^verbatim>\<open>useRef(0)\<close>,
  \<^verbatim>\<open>useState(false)\<close>, \<^verbatim>\<open>useState<Recipe | null>(null)\<close>, and empty lists.
\<close>

definition initial_state :: ui_state where
  "initial_state =
     \<lparr>timers = [], nextId = 0, cameraRequest = False, recipe = None,
      dishSuggestions = Arr [], groceryList = [], groceryListOpen = False\<rparr>"

text \<open>
  \<^verbatim>\<open>useTimers\<close> with what decides when its expiry effect runs. The state
  \<^verbatim>\<open>timers\<close> holds an array; every \<^verbatim>\<open>setTimers\<close> installs a new one
  (\<^verbatim>\<open>[...prev, t]\<close>, \<^verbatim>\<open>prev.filter(...)\<close>), and a render caused by anything
  else sees the same one. \<open>timers_ref\<close> numbers the arrays. React runs an effect
  after the first render, and after a later render when a value of its dependency list,
  here \<^verbatim>\<open>[timers, /* ticked by setTick */]\<close>, that is \<^verbatim>\<open>[timers]\<close>, is not
  the one of the render before: \<open>effect_ref\<close> is the array the effect last ran with.
\<close>

record timers_hook =
  hook_state :: ui_state
  timers_ref :: nat
  effect_ref :: "nat option"

definition mount :: timers_hook where
  "mount = \<lparr>hook_state = initial_state, timers_ref = 0, effect_ref = None\<rparr>"

text \<open>\<^verbatim>\<open>addTimer\<close> and \<^verbatim>\<open>dismissTimer\<close> call \<^verbatim>\<open>setTimers\<close>.\<close>

definition hook_addTimer :: "(jsval \<Rightarrow> rat number) \<Rightarrow> int \<Rightarrow> jsval \<Rightarrow> jsval \<Rightarrow> timers_hook \<Rightarrow> timers_hook" where
  "hook_addTimer conv now lbl durationSeconds h =
     h\<lparr>hook_state := addTimer conv now lbl durationSeconds (hook_state h),
       timers_ref := timers_ref h + 1\<rparr>"

definition hook_dismissTimer :: "nat \<Rightarrow> timers_hook \<Rightarrow> timers_hook" where
  "hook_dismissTimer i h =
     h\<lparr>hook_state := dismissTimer i (hook_state h), timers_ref := timers_ref h + 1\<rparr>"

text \<open>
  The effects after a render at time \<open>now\<close>: the expiry effect is skipped when
  \<^verbatim>\<open>timers\<close> is the array it last ran with; otherwise it runs, and it calls
  \<^verbatim>\<open>setTimers\<close> when a timer has expired (which is when an alarm is played).
\<close>

definition after_render :: "int \<Rightarrow> timers_hook \<Rightarrow> jsval list \<times> timers_hook" where
  "after_render now h =
     (if effect_ref h = Some (timers_ref h) then ([], h)
      else (let (alarms, st') = expiry_check now (hook_state h)
            in (alarms,
                h\<lparr>hook_state := st',
                  timers_ref := (if alarms = [] then timers_ref h else timers_ref h + 1),
                  effect_ref := Some (timers_ref h)\<rparr>)))"

text \<open>
  The tick, every second: \<^verbatim>\<open>setInterval(() => setTick((t) => t + 1), 1000)\<close>. It
  changes the counter \<^verbatim>\<open>tick\<close> only, the component renders again to show the
  countdowns, and the effects of that render follow.
\<close>

definition tick :: "int \<Rightarrow> timers_hook \<Rightarrow> jsval list \<times> timers_hook" where
  "tick now h = after_render now h"


text \<open>
  The grocery item built from one entry of \<^verbatim>\<open>msg.items\<close> that is not
  \<^verbatim>\<open>null\<close>.
\<close>

definition grocery_item_of :: "jsval \<Rightarrow> grocery_item" where
  "grocery_item_of item =
     \<lparr>item_recipe = js_or (own_prop item ''recipe'') (Str []),
      item_ingredients = js_or (own_prop item ''ingredients'') (Arr []),
      checked = js_or (own_prop item ''checked'') (Arr [])\<rparr>"

section \<open>Rounding to a double: what the countdown needs\<close>

lemma pow2_nat: "0 \<le> k \<Longrightarrow> (2::rat) powi k = 2 ^ nat k"
  by (simp add: power_int_def)

lemma pow2_neg: "0 \<le> k \<Longrightarrow> (2::rat) powi (- k) = 1 / 2 ^ nat k"
  by (simp add: power_int_minus pow2_nat field_simps)

lemma ilog2_spec:
  assumes "0 < x"
  shows "2 powi (ilog2 x) \<le> x \<and> x < 2 powi (ilog2 x + 1)"
proof (cases "1 \<le> x")
  case True
  define n where "n = \<lfloor>x\<rfloor>"
  have n1: "1 \<le> n" using True by (simp add: n_def le_floor_iff)
  then have n0: "0 < n" by simp
  from bitlen_bounds [OF n0]
  have lo: "2 ^ nat (bitlen n - 1) \<le> n" and hi: "n < 2 ^ nat (bitlen n)" by simp_all
  have b1: "1 \<le> bitlen n" using n0 by (simp add: bitlen_alt_def)
  have k: "ilog2 x = bitlen n - 1" using True by (simp add: ilog2_def n_def)
  have "(2::rat) powi (bitlen n - 1) = of_int (2 ^ nat (bitlen n - 1))"
    using b1 by (simp add: pow2_nat)
  also have "\<dots> \<le> of_int n" using lo by (simp only: of_int_le_iff)
  also have "\<dots> \<le> x" by (simp add: n_def)
  finally have low: "2 powi (ilog2 x) \<le> x" by (simp add: k)
  have "x < of_int (n + 1)" unfolding n_def by linarith
  also have "\<dots> \<le> of_int (2 ^ nat (bitlen n))"
    using hi by (simp only: of_int_le_iff; linarith)
  also have "\<dots> = (2::rat) powi (bitlen n)" using b1 by (simp add: pow2_nat)
  finally have "x < 2 powi (ilog2 x + 1)" by (simp add: k)
  with low show ?thesis by simp
next
  case False
  then have x1: "x < 1" by simp
  define y where "y = 1 / x"
  define c where "c = \<lceil>y\<rceil>"
  have y1: "1 < y" using assms x1 by (simp add: y_def)
  have c2: "2 \<le> c" using y1 unfolding c_def by linarith
  then have c0: "0 < c - 1" by simp
  define b where "b = bitlen (c - 1)"
  from bitlen_bounds [OF c0]
  have lo: "2 ^ nat (b - 1) \<le> c - 1" and hi: "c - 1 < 2 ^ nat b" by (simp_all add: b_def)
  have b1: "1 \<le> b" using c0 by (simp add: b_def bitlen_alt_def)
  have k: "ilog2 x = - b" using False by (simp add: ilog2_def b_def c_def y_def)
  have "y \<le> of_int c" by (simp add: c_def)
  also have "\<dots> \<le> of_int (2 ^ nat b)" using hi by (simp only: of_int_le_iff; linarith)
  finally have yb: "y \<le> 2 ^ nat b" by simp
  have "2 powi (- b) = 1 / (2::rat) ^ nat b" using b1 by (simp add: pow2_neg)
  also have "\<dots> \<le> x"
    using yb assms by (simp add: y_def field_simps)
  finally have low: "2 powi (ilog2 x) \<le> x" by (simp add: k)
  have "of_int (2 ^ nat (b - 1)) \<le> (of_int (c - 1) :: rat)" using lo by (simp only: of_int_le_iff)
  also have "\<dots> < y" unfolding c_def by linarith
  finally have by': "(2::rat) ^ nat (b - 1) < y" by simp
  have "x < 1 / (2::rat) ^ nat (b - 1)"
    using by' assms by (simp add: y_def field_simps)
  also have "\<dots> = 2 powi (- (b - 1))" using b1 pow2_neg [of "b - 1"] by simp
  finally have "x < 2 powi (ilog2 x + 1)" by (simp add: k)
  with low show ?thesis by simp
qed

lemma ilog2_less:
  assumes "0 < x" and "x < 2 powi M"
  shows "ilog2 x < M"
proof (rule ccontr)
  assume "\<not> ilog2 x < M"
  then have "M \<le> ilog2 x" by simp
  then have "(2::rat) powi M \<le> 2 powi (ilog2 x)" by (intro power_int_increasing) simp_all
  also have "\<dots> \<le> x" using ilog2_spec [OF assms(1)] by simp
  finally show False using assms(2) by simp
qed

lemma ilog2_ge:
  assumes "0 < x" and "2 powi M \<le> x"
  shows "M \<le> ilog2 x"
proof (rule ccontr)
  assume "\<not> M \<le> ilog2 x"
  then have "ilog2 x + 1 \<le> M" by simp
  then have "(2::rat) powi (ilog2 x + 1) \<le> 2 powi M" by (intro power_int_increasing) simp_all
  moreover have "x < 2 powi (ilog2 x + 1)" using ilog2_spec [OF assms(1)] by simp
  ultimately show False using assms(2) by simp
qed


lemma ulp_pos: "0 < ulp x"
  by (simp add: ulp_def)

lemma ulp_le:
  assumes "x \<noteq> 0" and "\<bar>x\<bar> < 2 powi M" and "- 1021 \<le> M"
  shows "ulp x \<le> 2 powi (M - 53)"
proof -
  have "ilog2 \<bar>x\<bar> < M" using assms by (intro ilog2_less) simp_all
  then have "max (ilog2 \<bar>x\<bar>) (- 1022) - 52 \<le> M - 53" using assms(3) by simp
  then show ?thesis unfolding ulp_def by (intro power_int_increasing) simp_all
qed

lemma rne_of_int: "rne (of_int n) = n"
  by (simp add: rne_def)

lemma rne_error: "\<bar>of_int (rne t) - t\<bar> \<le> 1 / 2"
proof -
  have "of_int \<lfloor>t\<rfloor> \<le> t" "t < of_int \<lfloor>t\<rfloor> + 1" by linarith+
  then show ?thesis by (auto simp: rne_def Let_def abs_le_iff)
qed

lemma rne_nonneg: "0 \<le> t \<Longrightarrow> 0 \<le> rne t"
  by (auto simp: rne_def Let_def)

lemma rne_nonpos: "t \<le> 0 \<Longrightarrow> rne t \<le> 0"
proof -
  assume t: "t \<le> 0"
  show ?thesis
  proof (cases "t = 0")
    case True
    then show ?thesis using rne_of_int [of 0] by simp
  next
    case False
    with t have "t < 0" by simp
    then have f: "\<lfloor>t\<rfloor> \<le> - 1" by (simp add: floor_le_iff)
    have "rne t \<le> \<lfloor>t\<rfloor> + 1" by (simp add: rne_def Let_def)
    with f show ?thesis by simp
  qed
qed


lemma pow2_half: "(2::rat) powi (M - 54) = 2 powi (M - 53) / 2"
  using power_int_diff [of "2::rat" "M - 53" 1] by simp

lemma round_double_near:
  assumes "\<bar>x\<bar> < 2 powi M" and "- 1021 \<le> M" and "M \<le> 1023"
  shows "\<exists>r. round_double x = Fin r \<and> \<bar>r - x\<bar> \<le> 2 powi (M - 54)
             \<and> (0 \<le> x \<longrightarrow> 0 \<le> r) \<and> (x \<le> 0 \<longrightarrow> r \<le> 0)"
proof (cases "x = 0")
  case True
  then show ?thesis by (simp add: round_double_def)
next
  case False
  define u where "u = ulp x"
  define r where "r = of_int (rne (x / u)) * u"
  have u0: "0 < u" by (simp add: u_def ulp_pos)
  have ule: "u \<le> 2 powi (M - 53)" unfolding u_def using False assms(1,2) by (rule ulp_le)
  have "r - x = (of_int (rne (x / u)) - x / u) * u"
    using u0 by (simp add: r_def field_simps)
  then have "\<bar>r - x\<bar> = \<bar>of_int (rne (x / u)) - x / u\<bar> * u"
    using u0 by (simp add: abs_mult)
  also have "\<dots> \<le> (1 / 2) * u"
    using u0 rne_error [of "x / u"] by (intro mult_right_mono) simp_all
  also have "\<dots> \<le> 2 powi (M - 53) / 2" using ule by simp
  finally have err: "\<bar>r - x\<bar> \<le> 2 powi (M - 54)" by (simp add: pow2_half)
  have "(2::rat) powi (M - 54) < 2 powi 1023"
    using assms(3) by (intro power_int_strict_increasing) simp_all
  moreover have "(2::rat) powi M \<le> 2 powi 1023"
    using assms(3) by (intro power_int_increasing) simp_all
  moreover have "\<bar>r\<bar> \<le> \<bar>x\<bar> + \<bar>r - x\<bar>" by simp
  ultimately have "\<bar>r\<bar> < 2 powi 1023 + 2 powi 1023" using err assms(1) by linarith
  also have "\<dots> = (2::rat) powi 1024" by simp
  finally have fin: "\<not> 2 powi 1024 \<le> \<bar>r\<bar>" by simp
  have rd: "round_double x = Fin r"
    using False fin unfolding round_double_def Let_def r_def u_def by simp
  have pos: "0 \<le> r" if "0 \<le> x"
  proof -
    from that u0 have "0 \<le> x / u" by simp
    then have "0 \<le> rne (x / u)" by (rule rne_nonneg)
    with u0 show ?thesis by (simp add: r_def)
  qed
  have neg: "r \<le> 0" if "x \<le> 0"
  proof -
    from that u0 have "x / u \<le> 0" by (simp add: divide_le_0_iff)
    then have "rne (x / u) \<le> 0" by (rule rne_nonpos)
    with u0 show ?thesis by (simp add: r_def mult_le_0_iff)
  qed
  from rd err pos neg show ?thesis by blast
qed

lemma round_double_exact:
  assumes n: "\<bar>n\<bar> < 2 ^ 53" and j: "- 1074 \<le> j" "j \<le> 970"
  shows "round_double (of_int n * 2 powi j) = Fin (of_int n * 2 powi j)"
proof (cases "n = 0")
  case True
  then show ?thesis by (simp add: round_double_def)
next
  case False
  define x :: rat where "x = of_int n * 2 powi j"
  have x0: "x \<noteq> 0" using False by (simp add: x_def)
  have "\<bar>x\<bar> = of_int \<bar>n\<bar> * 2 powi j" by (simp add: x_def abs_mult)
  also have "\<dots> < of_int (2 ^ 53) * 2 powi j"
    using n by (intro mult_strict_right_mono) (simp_all only: of_int_less_iff zero_less_power_int zero_less_numeral)
  also have "\<dots> = 2 powi (53 + j)"
    using power_int_add [of "2::rat" 53 j] by simp
  finally have xlt: "\<bar>x\<bar> < 2 powi (53 + j)" .
  have "ilog2 \<bar>x\<bar> < 53 + j" using x0 xlt by (intro ilog2_less) simp_all
  then have kle: "max (ilog2 \<bar>x\<bar>) (- 1022) - 52 \<le> j" using j(1) by simp
  define k where "k = max (ilog2 \<bar>x\<bar>) (- 1022) - 52"
  have u: "ulp x = 2 powi k" by (simp add: ulp_def k_def)
  have jk: "0 \<le> j - k" using kle by (simp add: k_def)
  have "(2::rat) powi j = 2 powi (j - k) * 2 powi k"
    using power_int_add [of "2::rat" "j - k" k] by simp
  then have xk: "x = of_int n * 2 powi (j - k) * 2 powi k"
    by (simp add: x_def)
  have "x / ulp x = x / 2 powi k" by (simp only: u)
  also have "\<dots> = of_int n * 2 powi (j - k)"
    by (subst xk) simp
  also have "\<dots> = of_int (n * 2 ^ nat (j - k))" using jk by (simp add: pow2_nat)
  finally have q: "x / ulp x = of_int (n * 2 ^ nat (j - k))" .
  have r: "of_int (rne (x / ulp x)) * ulp x = x"
    unfolding q rne_of_int using q by (simp add: ulp_pos less_imp_neq [OF ulp_pos, symmetric] field_simps)
  have "(2::rat) powi (53 + j) \<le> 2 powi 1023"
    using j(2) by (intro power_int_increasing) simp_all
  also have "\<dots> < (2::rat) powi 1024" by simp
  finally have "\<not> 2 powi 1024 \<le> \<bar>x\<bar>" using xlt by simp
  then have "round_double x = Fin x"
    using x0 r by (simp add: round_double_def Let_def)
  then show ?thesis by (simp add: x_def)
qed

lemma round_double_of_int:
  "\<bar>n\<bar> < 2 ^ 53 \<Longrightarrow> round_double (of_int n) = Fin (of_int n)"
  using round_double_exact [of n 0] by simp

lemma is_double_of_int: "\<bar>n\<bar> < 2 ^ 53 \<Longrightarrow> is_double (of_int n)"
  by (simp add: is_double_def round_double_of_int)


lemma double_grid:
  assumes d: "is_double e" and e1: "1 \<le> e" and e53: "e < 2 ^ 53"
  obtains n j where "e = of_int n * 2 powi j" "- 52 \<le> j" "j \<le> 0" "0 < n" "n < 2 ^ 53"
proof -
  have e0: "0 < e" using e1 by simp
  define E where "E = ilog2 e"
  have spec: "2 powi E \<le> e" "e < 2 powi (E + 1)" using ilog2_spec [OF e0] by (simp_all add: E_def)
  have E0: "0 \<le> E" unfolding E_def using e0 e1 by (intro ilog2_ge) simp_all
  have E53: "E < 53" unfolding E_def using e0 e53 by (intro ilog2_less) simp_all
  define j where "j = E - 52"
  have u: "ulp e = 2 powi j" using e0 E0 by (simp add: ulp_def E_def j_def max_def)
  define n where "n = rne (e / ulp e)"
  have rep: "e = of_int n * 2 powi j"
    using d e0 unfolding is_double_def round_double_def Let_def n_def u
    by (simp split: if_splits)
  have g0: "0 < (2::rat) powi j" by simp
  have n0: "0 < n"
  proof (rule ccontr)
    assume "\<not> 0 < n"
    then have "of_int n \<le> (0::rat)" by simp
    then have "of_int n * 2 powi j \<le> (0::rat)" using g0 by (simp add: mult_le_0_iff)
    with rep e0 show False by simp
  qed
  have "(2::rat) powi (E + 1) = 2 powi 53 * 2 powi j"
    using power_int_add [of "2::rat" 53 j] by (simp add: j_def add.commute)
  with spec(2) rep have "of_int n * 2 powi j < (2::rat) powi 53 * 2 powi j" by simp
  then have "of_int n < (2::rat) powi 53" using g0 by (simp only: mult_less_cancel_right_pos)
  then have "(of_int n :: rat) < of_int (2 ^ 53)" by simp
  then have n53: "n < 2 ^ 53" by (simp only: of_int_less_iff)
  from rep E0 E53 n0 n53 show ?thesis by (intro that [of n j]) (simp_all add: j_def)
qed

lemma grid_int:
  assumes "j \<le> 0"
  shows "of_int z = of_int (z * 2 ^ nat (- j)) * (2::rat) powi j"
proof -
  have "(2::rat) powi j = 1 / 2 ^ nat (- j)" using assms pow2_neg [of "- j"] by simp
  then show ?thesis by simp
qed

lemma grid_pos:
  assumes "a = of_int z * g" and "0 < a" and "0 < (g::rat)"
  shows "g \<le> a"
proof -
  have "0 < z"
  proof (rule ccontr)
    assume "\<not> 0 < z"
    then have "of_int z \<le> (0::rat)" by simp
    with assms(3) have "of_int z * g \<le> 0" by (simp add: mult_le_0_iff)
    with assms(1,2) show False by simp
  qed
  then have "(1::rat) \<le> of_int z" by simp
  with assms(3) have "1 * g \<le> of_int z * g" by (intro mult_right_mono) simp_all
  with assms(1) show ?thesis by simp
qed

lemma ceil_round_div1000:
  assumes x: "x = of_int m * 2 powi j" and m: "0 < m" "m < 2 ^ 53" and j: "- 52 \<le> j" "j \<le> 0"
  shows "\<exists>r. round_double (x / 1000) = Fin r \<and> \<lceil>r\<rceil> = \<lceil>x / 1000\<rceil>"
proof -
  define g :: rat where "g = 2 powi j"
  have g0: "0 < g" by (simp add: g_def)
  define q where "q = x / 1000"
  define K where "K = \<lceil>q\<rceil>"
  have x0: "0 < x" using m(1) g0 by (simp add: x g_def)
  have q0: "0 < q" using x0 by (simp add: q_def)
  have "x < of_int (2 ^ 53) * g"
    unfolding x g_def [symmetric] using m(2) g0
    by (intro mult_strict_right_mono) (simp_all only: of_int_less_iff)
  also have "\<dots> = 2 powi (53 + j)"
    using power_int_add [of "2::rat" 53 j] by (simp add: g_def)
  finally have xlt: "x < 2 powi (53 + j)" .
  have "(2::rat) powi (53 + j) = 2 powi (44 + j) * 512"
    using power_int_add [of "2::rat" "44 + j" 9] by (simp add: add.commute add.left_commute)
  with xlt have "q < 2 powi (44 + j) * 512 / 1000" by (simp add: q_def)
  also have "\<dots> \<le> 2 powi (44 + j)" by (simp add: field_simps)
  finally have qlt: "\<bar>q\<bar> < 2 powi (44 + j)" using q0 by simp
  from round_double_near [OF qlt] j
  obtain r where r: "round_double q = Fin r" and err: "\<bar>r - q\<bar> \<le> 2 powi (44 + j - 54)"
    by auto
  have "(2::rat) powi (44 + j - 54) = g / 1024"
    using power_int_diff [of "2::rat" j 10] by (simp add: g_def)
  with err have err': "\<bar>r - q\<bar> \<le> g / 1024" by simp
  have Kq: "q \<le> of_int K" "of_int K - 1 < q" unfolding K_def by linarith+
  define b where "b = x - of_int (K - 1) * 1000"
  have b0: "0 < b" using Kq(2) by (simp add: b_def q_def)
  have "b = of_int (m - (K - 1) * 1000 * 2 ^ nat (- j)) * g"
    unfolding b_def x g_def [symmetric]
    using grid_int [OF j(2), of "(K - 1) * 1000"] by (simp add: g_def algebra_simps)
  then have bg: "g \<le> b" using b0 g0 by (rule grid_pos)
  have lower: "of_int K - 1 < r"
  proof -
    have "q = of_int (K - 1) + b / 1000" by (simp add: b_def q_def field_simps)
    moreover have "g / 1024 < g / 1000" using g0 by (simp add: field_simps)
    moreover have "g / 1000 \<le> b / 1000" using bg by simp
    moreover have "q - g / 1024 \<le> r" using err' by linarith
    ultimately show ?thesis by simp
  qed
  define a where "a = of_int K * 1000 - x"
  have a0: "0 \<le> a" using Kq(1) by (simp add: a_def q_def)
  have ag: "a = of_int (K * 1000 * 2 ^ nat (- j) - m) * g"
    unfolding a_def x g_def [symmetric]
    using grid_int [OF j(2), of "K * 1000"] by (simp add: g_def algebra_simps)
  have upper: "r \<le> of_int K"
  proof (cases "a = 0")
    case True
    then have qK: "q = of_int K" by (simp add: a_def q_def)
    have "0 < K" using q0 qK by simp
    moreover have "(of_int K :: rat) < of_int (2 ^ 53)"
    proof -
      have "(2::rat) powi (44 + j) \<le> 2 powi 53" using j(2) by (intro power_int_increasing) simp_all
      with qlt q0 qK show ?thesis by simp
    qed
    then have "K < 2 ^ 53" by (simp only: of_int_less_iff)
    ultimately have "round_double (of_int K) = Fin (of_int K)"
      by (intro round_double_of_int) simp
    with r qK show ?thesis by simp
  next
    case False
    with a0 have "0 < a" by simp
    with ag have "g \<le> a" using g0 by (rule grid_pos)
    then have "g / 1000 \<le> a / 1000" by simp
    moreover have "q = of_int K - a / 1000" by (simp add: a_def q_def field_simps)
    moreover have "g / 1024 < g / 1000" using g0 by (simp add: field_simps)
    moreover have "r \<le> q + g / 1024" using err' by linarith
    ultimately show ?thesis by simp
  qed
  from lower upper have "\<lceil>r\<rceil> = K" by (intro ceiling_unique) simp_all
  with r show ?thesis by (auto simp: q_def K_def)
qed

lemma floor_round_div60:
  assumes L: "0 \<le> L" "L < 2 ^ 53"
  shows "\<exists>r. round_double (of_int L / 60) = Fin r \<and> \<lfloor>r\<rfloor> = L div 60"
proof (cases "L mod 60 = 0")
  case True
  then have "(of_int L :: rat) = of_int (L div 60) * 60"
    by (metis dvd_div_mult_self mod_0_imp_dvd of_int_mult of_int_numeral)
  then have q: "(of_int L :: rat) / 60 = of_int (L div 60)" by simp
  have "L = 60 * (L div 60) + L mod 60" by simp
  moreover have "0 \<le> L mod 60" by simp
  moreover have "0 \<le> L div 60" using L(1) by (simp add: pos_imp_zdiv_nonneg_iff)
  ultimately have "\<bar>L div 60\<bar> < 2 ^ 53" using L(2) by linarith
  then have "round_double (of_int (L div 60)) = Fin (of_int (L div 60))"
    by (rule round_double_of_int)
  then show ?thesis by (simp add: q)
next
  case False
  define a where "a = L div 60"
  define b where "b = L mod 60"
  have "0 \<le> L mod 60" "L mod 60 < 60" by simp_all
  with False have b: "1 \<le> b" "b \<le> 59" by (simp_all add: b_def)
  have Lab: "L = 60 * a + b" by (simp add: a_def b_def)
  define q :: rat where "q = of_int L / 60"
  have qab: "q = of_int a + of_int b / 60" by (simp add: q_def Lab)
  have "\<bar>q\<bar> = of_int L / 60" using L(1) by (simp add: q_def)
  also have "\<dots> < of_int (2 ^ 53) / 60" using L(2) by (simp only: divide_strict_right_mono of_int_less_iff zero_less_numeral)
  also have "\<dots> \<le> 2 powi 48" by simp
  finally have qlt: "\<bar>q\<bar> < 2 powi 48" .
  from round_double_near [OF qlt]
  obtain r where r: "round_double q = Fin r" and err: "\<bar>r - q\<bar> \<le> 2 powi (48 - 54)" by auto
  have "(2::rat) powi (48 - 54) = 1 / 64" by simp
  with err have err': "\<bar>r - q\<bar> \<le> 1 / 64" by simp
  have bl: "(1::rat) \<le> of_int b" and bu: "(of_int b :: rat) \<le> 59" using b by simp_all
  have f1: "1 / 60 \<le> of_int b / (60::rat)" using bl by (intro divide_right_mono) simp_all
  have f2: "of_int b / (60::rat) \<le> 59 / 60" using bu by (intro divide_right_mono) simp_all
  have e1: "q - 1 / 64 \<le> r" and e2: "r \<le> q + 1 / 64" using err' by linarith+
  have "of_int a < r" "r < of_int a + 1"
    using f1 f2 e1 e2 unfolding qab by linarith+
  then have "\<lfloor>r\<rfloor> = a" by (intro floor_unique) simp_all
  with r show ?thesis by (auto simp: q_def a_def)
qed

lemma round_nonpos_div1000:
  assumes "x \<le> 0" and "\<bar>x\<bar> < 2 powi 60"
  shows "\<exists>r1 r2. round_double x = Fin r1 \<and> round_double (r1 / 1000) = Fin r2 \<and> r2 \<le> 0"
proof -
  from round_double_near [OF assms(2)] assms(1)
  obtain r1 where r1: "round_double x = Fin r1" "\<bar>r1 - x\<bar> \<le> 2 powi (60 - 54)" "r1 \<le> 0" by auto
  have "\<bar>r1\<bar> \<le> \<bar>x\<bar> + \<bar>r1 - x\<bar>" by simp
  also have "\<dots> < 2 powi 60 + 2 powi (60 - 54)" using assms(2) r1(2) by simp
  also have "\<dots> \<le> (2::rat) powi 61" by simp
  finally have "\<bar>r1 / 1000\<bar> < 2 powi 61" by simp
  from round_double_near [OF this] r1(3)
  obtain r2 where "round_double (r1 / 1000) = Fin r2" "r2 \<le> 0"
    by (auto simp: divide_le_0_iff)
  with r1(1) show ?thesis by blast
qed

section \<open>The countdown text\<close>

lemma digit_char_0: "digit_char 0 = CHR ''0''"
  by code_simp

lemma digit_chars:
  "digit_char 0 = CHR ''0''" "digit_char (Suc 0) = CHR ''1''" "digit_char 1 = CHR ''1''"
  "digit_char 2 = CHR ''2''" "digit_char 3 = CHR ''3''" "digit_char 4 = CHR ''4''"
  "digit_char 5 = CHR ''5''" "digit_char 6 = CHR ''6''" "digit_char 7 = CHR ''7''"
  "digit_char 8 = CHR ''8''" "digit_char 9 = CHR ''9''"
  by code_simp+

lemma digits_small: "n < 10 \<Longrightarrow> digits n = [digit_char n]"
  by (simp add: digits.simps)

lemma digits_two:
  "10 \<le> n \<Longrightarrow> n < 100 \<Longrightarrow> digits n = [digit_char (n div 10), digit_char (n mod 10)]"
  by (subst digits.simps) (simp add: digits_small)

lemma pad_seconds:
  assumes "s < 60"
  shows "padStart 2 (CHR ''0'') (digits s) = [digit_char (s div 10), digit_char (s mod 10)]"
proof (cases "s < 10")
  case True
  then show ?thesis by (simp add: padStart_def digits_small digit_char_0)
next
  case False
  with assms show ?thesis by (simp add: padStart_def digits_two)
qed

lemma left_nonpos:
  assumes e: "\<bar>e\<bar> < 2 ^ 53" and now: "0 < now" "now < 2 ^ 53" and le: "e \<le> of_int now"
  shows "Math_max (Fin 0) (Math_ceil (js_over (js_sub (Fin e) (Fin (of_int now))) 1000)) = Fin 0"
proof -
  define x where "x = e + - of_int now"
  have x0: "x \<le> 0" using le by (simp add: x_def)
  have "(of_int now :: rat) < of_int (2 ^ 53)" using now(2) by (simp only: of_int_less_iff)
  then have "\<bar>x\<bar> < 2 ^ 53 + 2 ^ 53" using e now(1) unfolding x_def by simp
  also have "\<dots> \<le> (2::rat) powi 60" by simp
  finally have "\<bar>x\<bar> < 2 powi 60" .
  from round_nonpos_div1000 [OF x0 this]
  obtain r1 r2 where r: "round_double x = Fin r1" "round_double (r1 / 1000) = Fin r2" "r2 \<le> 0"
    by blast
  have "\<lceil>r2\<rceil> \<le> 0" using r(3) by (simp add: ceiling_le_iff)
  then have mx: "max 0 \<lceil>r2\<rceil> = 0" by simp
  have s1: "js_sub (Fin e) (Fin (of_int now)) = Fin r1"
    using r(1) by (simp add: js_sub_def x_def)
  have s2: "js_over (Fin r1) 1000 = Fin r2" using r(2) by simp
  have "Math_max (Fin 0) (Math_ceil (Fin r2)) = Fin (max 0 \<lceil>r2\<rceil>)"
    by (simp only: Math_ceil.simps Math_max.simps)
  with mx show ?thesis unfolding s1 s2 by (simp only:)
qed

lemma left_pos:
  assumes d: "is_double e" and e: "e < 2 ^ 53" and now: "0 < now" and gt: "of_int now < e"
  shows "Math_max (Fin 0) (Math_ceil (js_over (js_sub (Fin e) (Fin (of_int now))) 1000))
           = Fin \<lceil>(e - of_int now) / 1000\<rceil>
         \<and> 0 < \<lceil>(e - of_int now) / 1000\<rceil>"
proof -
  have "(1::rat) \<le> of_int now" using now by simp
  with gt have e1: "1 \<le> e" by simp
  from double_grid [OF d e1 e]
  obtain n j where nj: "e = of_int n * 2 powi j" "- 52 \<le> j" "j \<le> 0" "0 < n" "n < 2 ^ 53"
    by blast
  define g :: rat where "g = 2 powi j"
  have g0: "0 < g" by (simp add: g_def)
  define m where "m = n - now * 2 ^ nat (- j)"
  define x where "x = e + - of_int now"
  have xm: "x = of_int m * 2 powi j"
    unfolding x_def m_def nj(1) using grid_int [OF nj(3), of now] by (simp add: algebra_simps)
  have x0: "0 < x" using gt by (simp add: x_def)
  have m0: "0 < m"
  proof (rule ccontr)
    assume "\<not> 0 < m"
    then have "of_int m \<le> (0::rat)" by simp
    then have "of_int m * 2 powi j \<le> (0::rat)" by (simp add: mult_le_0_iff)
    with xm x0 show False by simp
  qed
  have "0 \<le> now * 2 ^ nat (- j)" using now by simp
  then have m53: "m < 2 ^ 53" using nj(5) by (simp add: m_def)
  have "\<bar>m\<bar> < 2 ^ 53" using m0 m53 by simp
  then have "round_double (of_int m * 2 powi j) = Fin (of_int m * 2 powi j)"
    using nj(2,3) by (intro round_double_exact) simp_all
  then have sub: "js_sub (Fin e) (Fin (of_int now)) = Fin x"
    by (simp add: js_sub_def xm [symmetric] x_def)
  from ceil_round_div1000 [OF xm m0 m53 nj(2,3)]
  obtain r where r: "round_double (x / 1000) = Fin r" "\<lceil>r\<rceil> = \<lceil>x / 1000\<rceil>" by blast
  have "0 < x / 1000" using x0 by simp
  then have pos: "0 < \<lceil>x / 1000\<rceil>" by (simp add: less_ceiling_iff)
  have s2: "js_over (Fin x) 1000 = Fin r" using r(1) by simp
  have mx: "max 0 \<lceil>x / 1000\<rceil> = \<lceil>x / 1000\<rceil>" using pos by simp
  have "Math_max (Fin 0) (Math_ceil (Fin r)) = Fin (max 0 \<lceil>r\<rceil>)"
    by (simp only: Math_ceil.simps Math_max.simps)
  then have "Math_max (Fin 0) (Math_ceil (js_over (js_sub (Fin e) (Fin (of_int now))) 1000))
          = Fin \<lceil>x / 1000\<rceil>"
    unfolding sub s2 r(2) mx .
  moreover have "x = e - of_int now" by (simp add: x_def)
  ultimately show ?thesis using pos by (simp only:)
qed

lemma left_in_range:
  assumes d: "is_double e" and e: "\<bar>e\<bar> < 2 ^ 53" and now: "0 < now" "now < 2 ^ 53"
  shows "Math_max (Fin 0) (Math_ceil (js_over (js_sub (Fin e) (Fin (of_int now))) 1000))
           = Fin (max 0 \<lceil>(e - of_int now) / 1000\<rceil>)"
proof (cases "e \<le> of_int now")
  case True
  then have "(e - of_int now) / 1000 \<le> 0" by simp
  then have "\<lceil>(e - of_int now) / 1000\<rceil> \<le> 0" by (simp only: ceiling_le_iff of_int_0)
  then have "max 0 \<lceil>(e - of_int now) / 1000\<rceil> = 0" by simp
  with left_nonpos [OF e now True] show ?thesis by (simp only:)
next
  case False
  then have gt: "of_int now < e" by simp
  have "e < 2 ^ 53" using e by simp
  from left_pos [OF d this now(1) gt]
  have l: "Math_max (Fin 0) (Math_ceil (js_over (js_sub (Fin e) (Fin (of_int now))) 1000))
           = Fin \<lceil>(e - of_int now) / 1000\<rceil>"
    and p: "0 < \<lceil>(e - of_int now) / 1000\<rceil>" by blast+
  from p have "max 0 \<lceil>(e - of_int now) / 1000\<rceil> = \<lceil>(e - of_int now) / 1000\<rceil>" by simp
  with l show ?thesis by (simp only:)
qed

lemma minutes_in_range:
  assumes k: "0 \<le> k" "k < 2 ^ 53"
  shows "toString big (Math_floor (js_over (to_rat (Fin k)) 60)) = digits (nat k div 60)"
proof -
  from floor_round_div60 [OF k]
  obtain r where r: "round_double (of_int k / 60) = Fin r" "\<lfloor>r\<rfloor> = k div 60" by blast
  have d0: "0 \<le> k div 60" using k(1) by (simp add: pos_imp_zdiv_nonneg_iff)
  have "k = 60 * (k div 60) + k mod 60" by simp
  moreover have "0 \<le> k mod 60" by simp
  ultimately have "k div 60 \<le> 2 ^ 53" using k(2) d0 by linarith
  then have small: "\<bar>k div 60\<bar> \<le> 2 ^ 53" using d0 by simp
  have "nat (k div 60) = nat k div 60" using k(1) by (simp add: nat_div_distrib)
  then show ?thesis using r d0 small by simp
qed

lemma seconds_in_range:
  assumes k: "0 \<le> k"
  shows "toString big (js_rem (Fin k) 60) = digits (nat k mod 60)"
proof -
  have "sgn k * (\<bar>k\<bar> mod 60) = k mod 60"
    using k by (cases "k = 0") (simp_all add: sgn_if)
  moreover have "nat (k mod 60) = nat k mod 60"
    using k by (simp add: nat_mod_distrib)
  moreover have "0 \<le> k mod 60" "k mod 60 < 60" by simp_all
  then have "\<bar>k mod 60\<bar> \<le> 2 ^ 53" by simp
  ultimately show ?thesis by simp
qed

lemma render_seconds:
  assumes left: "Math_max (Fin 0) (Math_ceil (js_over (js_sub v (Fin (of_int now))) 1000)) = Fin k"
    and k: "0 \<le> k" "k < 2 ^ 53"
  shows "formatTimeLeft big v now =
           digits (nat k div 60) @ '':'' @
             [digit_char (nat k mod 60 div 10), digit_char (nat k mod 60 mod 10)]"
proof -
  have "formatTimeLeft big v now =
          toString big (Math_floor (js_over (to_rat (Fin k)) 60)) @ '':'' @
          padStart 2 (CHR ''0'') (toString big (js_rem (Fin k) 60))"
    unfolding formatTimeLeft_def left Let_def ..
  also have "\<dots> = digits (nat k div 60) @ '':'' @ padStart 2 (CHR ''0'') (digits (nat k mod 60))"
    using k by (simp only: minutes_in_range seconds_in_range)
  also have "\<dots> = digits (nat k div 60) @ '':'' @
                 [digit_char (nat k mod 60 div 10), digit_char (nat k mod 60 mod 10)]"
    by (simp add: pad_seconds)
  finally show ?thesis .
qed



lemma expired_shows_zero:
  assumes "is_double e \<and> \<bar>e\<bar> < 2 ^ 53 \<and> 0 < now \<and> now < 2 ^ 53" and "e \<le> of_int now"
  shows "formatTimeLeft big (Fin e) now = ''0:00''"
proof -
  from assms(2) have "(e - of_int now) / 1000 \<le> 0" by simp
  then have "\<lceil>(e - of_int now) / 1000\<rceil> \<le> 0" by (simp only: ceiling_le_iff of_int_0)
  then have k: "max 0 \<lceil>(e - of_int now) / 1000\<rceil> = 0" by simp
  have "Math_max (Fin 0) (Math_ceil (js_over (js_sub (Fin e) (Fin (of_int now))) 1000)) = Fin 0"
    using left_in_range [of e now] assms(1) k by simp
  from render_seconds [OF this, of big] show ?thesis
    by (simp add: digits_small digit_chars)
qed





section \<open>The data handler: dispatch and frame\<close>


lemma js_get_value: "\<not> nullish msg \<Longrightarrow> js_get msg k = Inr (own_prop msg k)"
  by (simp add: js_get_def nullish_def)



lemma topic_and_type_value:
  "\<not> nullish msg \<Longrightarrow>
     topic_and_type topic t msg u = Inr (topic = Some t \<and> own_prop msg ''type'' = Str u)"
  by (simp add: topic_and_type_def type_is_def js_get_value)





lemma handleData_recipe:
  "\<not> nullish msg \<Longrightarrow>
     handleData conv now (Some msg) (Some ''recipe'') st =
       (case recipe_branch msg st of Inl e \<Rightarrow> st | Inr st' \<Rightarrow> st')"
  by (simp add: handleData_def try_body_def topic_and_type_value)

lemma type_not_nullish: "own_prop msg ''type'' = Str t \<Longrightarrow> \<not> nullish msg"
  by (auto simp: nullish_def)

lemma to_grocery_item_eq:
  "to_grocery_item item = (if nullish item then Inl TypeError else Inr (grocery_item_of item))"
  by (simp add: to_grocery_item_def grocery_item_of_def nullish_def)

lemma map_err_to_grocery_item:
  "map_err to_grocery_item xs =
     (if list_ex nullish xs then Inl TypeError else Inr (map grocery_item_of xs))"
  by (induction xs) (simp_all add: to_grocery_item_eq)

lemma handleData_grocery:
  "\<not> nullish msg \<Longrightarrow>
     handleData conv now (Some msg) (Some ''grocery_list'') st =
       (case grocery_branch msg st of Inl e \<Rightarrow> st | Inr st' \<Rightarrow> st')"
  by (simp add: handleData_def try_body_def topic_and_type_value)



lemma handleData_grocery_table:
  assumes "own_prop msg ''type'' = Str ''grocery_list_update''
           \<or> own_prop msg ''type'' = Str ''grocery_list_show''"
  shows "handleData conv now (Some msg) (Some ''grocery_list'') st =
     (case js_or (own_prop msg ''items'') (Arr []) of
        Arr xs \<Rightarrow>
          if list_ex nullish xs then st
          else st\<lparr>groceryList := map grocery_item_of xs,
                  groceryListOpen :=
                    (if own_prop msg ''type'' = Str ''grocery_list_show'' then True
                     else groceryListOpen st)\<rparr>
      | _ \<Rightarrow> st)"
proof -
  have nn: "\<not> nullish msg" using assms by (auto simp: nullish_def)
  have same: "st\<lparr>groceryListOpen := groceryListOpen st\<rparr> = st" by simp
  have "(case grocery_branch msg st of Inl e \<Rightarrow> st | Inr st' \<Rightarrow> st') =
     (case js_or (own_prop msg ''items'') (Arr []) of
        Arr xs \<Rightarrow>
          if list_ex nullish xs then st
          else st\<lparr>groceryList := map grocery_item_of xs,
                  groceryListOpen :=
                    (if own_prop msg ''type'' = Str ''grocery_list_show'' then True
                     else groceryListOpen st)\<rparr>
      | _ \<Rightarrow> st)"
    using assms
    by (cases "js_or (own_prop msg ''items'') (Arr [])")
       (auto simp: grocery_branch_def js_get_value [OF nn] map_err_to_grocery_item)
  then show ?thesis by (simp add: handleData_grocery [OF nn])
qed





text \<open>
  C3. When the payload's text is not JSON, the parser throws, the handler's
  \<^verbatim>\<open>catch\<close> ignores it, and the state is left as it was: the timers, the
  camera-request flag, the recipe, the dish suggestions, the grocery list and its open
  flag. So only a payload that parses can change the state.
\<close>

theorem handleData_not_json:
  "handleData conv now None topic st = st"
  by (simp add: handleData_def)

theorem handleData_not_json_witness:
  "handleData (\<lambda>v. NaN) 0 None (Some ''timer'') initial_state = initial_state"
  by (rule handleData_not_json)

text \<open>
  C5. On a \<^verbatim>\<open>recipe_start\<close> message on topic \<^verbatim>\<open>recipe\<close> the recipe is
  replaced by one with the message's title, with \<^verbatim>\<open>servings\<close> 1 and
  \<^verbatim>\<open>prepTimeMinutes\<close> 0 when the message's fields are absent or falsy, with
  empty ingredients and steps when those are absent, with no current step and no
  tutorial field; and the dish suggestions become the empty list. Nothing else changes.
\<close>

theorem recipe_start_replaces_recipe:
  assumes "own_prop msg ''type'' = Str ''recipe_start''"
  shows "\<exists>r. handleData conv now (Some msg) (Some ''recipe'') st
                  = st\<lparr>recipe := Some r, dishSuggestions := Arr []\<rparr>
             \<and> title r = own_prop msg ''title''
             \<and> servings r = js_or (own_prop msg ''servings'') (Num (Fin 1))
             \<and> (\<not> truthy (own_prop msg ''servings'') \<longrightarrow> servings r = Num (Fin 1))
             \<and> prepTimeMinutes r = js_or (own_prop msg ''prep_time_minutes'') (Num (Fin 0))
             \<and> (\<not> truthy (own_prop msg ''prep_time_minutes'') \<longrightarrow> prepTimeMinutes r = Num (Fin 0))
             \<and> ingredients r = js_or (own_prop msg ''ingredients'') (Arr [])
             \<and> (own_prop msg ''ingredients'' = Undefined \<longrightarrow> ingredients r = Arr [])
             \<and> steps r = js_or (own_prop msg ''steps'') (Arr [])
             \<and> (own_prop msg ''steps'' = Undefined \<longrightarrow> steps r = Arr [])
             \<and> currentStep r = Undefined
             \<and> tutorialUrl r = Undefined \<and> tutorialTitle r = Undefined
             \<and> tutorialSource r = Undefined
             \<and> ogImage r = Undefined \<and> ogTitle r = Undefined \<and> ogDescription r = Undefined"
proof -
  have nn: "\<not> nullish msg" using assms by (rule type_not_nullish)
  define r where "r =
     \<lparr>title = own_prop msg ''title'',
      servings = js_or (own_prop msg ''servings'') (Num (Fin 1)),
      prepTimeMinutes = js_or (own_prop msg ''prep_time_minutes'') (Num (Fin 0)),
      ingredients = js_or (own_prop msg ''ingredients'') (Arr []),
      steps = js_or (own_prop msg ''steps'') (Arr []),
      currentStep = Undefined,
      tutorialUrl = Undefined,
      tutorialTitle = Undefined,
      tutorialSource = Undefined,
      ogImage = Undefined,
      ogTitle = Undefined,
      ogDescription = Undefined\<rparr>"
  have "recipe_branch msg st = Inr (st\<lparr>recipe := Some r, dishSuggestions := Arr []\<rparr>)"
    using assms by (simp add: recipe_branch_def js_get_value [OF nn] r_def)
  then have h: "handleData conv now (Some msg) (Some ''recipe'') st
                  = st\<lparr>recipe := Some r, dishSuggestions := Arr []\<rparr>"
    by (simp add: handleData_recipe [OF nn])
  have d: "\<not> truthy v \<Longrightarrow> js_or v w = w" for v w by (simp add: js_or_def)
  have u: "js_or Undefined w = w" for w by (simp add: js_or_def)
  show ?thesis
    by (rule exI [of _ r]) (simp add: h, simp add: r_def d u)
qed

theorem recipe_start_replaces_recipe_witness:
  "handleData (\<lambda>v. NaN) 0 (Some (Obj [(''type'', Str ''recipe_start''), (''title'', Str ''Soup''),
        (''servings'', Num (Fin 0)), (''steps'', Arr [Str ''boil''])])) (Some ''recipe'')
      (initial_state\<lparr>dishSuggestions := Arr [Str ''Soup'', Str ''Stew'']\<rparr>)
    = initial_state\<lparr>recipe := Some
         \<lparr>title = Str ''Soup'', servings = Num (Fin 1), prepTimeMinutes = Num (Fin 0),
          ingredients = Arr [], steps = Arr [Str ''boil''], currentStep = Undefined,
          tutorialUrl = Undefined, tutorialTitle = Undefined, tutorialSource = Undefined,
          ogImage = Undefined, ogTitle = Undefined, ogDescription = Undefined\<rparr>,
        dishSuggestions := Arr []\<rparr>"
proof -
  define msg where "msg = Obj [(''type'', Str ''recipe_start''), (''title'', Str ''Soup''),
        (''servings'', Num (Fin 0)), (''steps'', Arr [Str ''boil''])]"
  have t: "own_prop msg ''type'' = Str ''recipe_start''" by (simp add: msg_def)
  from recipe_start_replaces_recipe [OF t, of "\<lambda>v. NaN" 0
      "initial_state\<lparr>dishSuggestions := Arr [Str ''Soup'', Str ''Stew'']\<rparr>"]
  obtain r where r: "handleData (\<lambda>v. NaN) 0 (Some msg) (Some ''recipe'')
        (initial_state\<lparr>dishSuggestions := Arr [Str ''Soup'', Str ''Stew'']\<rparr>)
       = initial_state\<lparr>dishSuggestions := Arr [Str ''Soup'', Str ''Stew'']\<rparr>
           \<lparr>recipe := Some r, dishSuggestions := Arr []\<rparr>"
    and f: "title r = own_prop msg ''title''"
      "servings r = js_or (own_prop msg ''servings'') (Num (Fin 1))"
      "prepTimeMinutes r = js_or (own_prop msg ''prep_time_minutes'') (Num (Fin 0))"
      "ingredients r = js_or (own_prop msg ''ingredients'') (Arr [])"
      "steps r = js_or (own_prop msg ''steps'') (Arr [])"
      "currentStep r = Undefined" "tutorialUrl r = Undefined" "tutorialTitle r = Undefined"
      "tutorialSource r = Undefined" "ogImage r = Undefined" "ogTitle r = Undefined"
      "ogDescription r = Undefined"
    by blast
  from f have "r = \<lparr>title = Str ''Soup'', servings = Num (Fin 1), prepTimeMinutes = Num (Fin 0),
          ingredients = Arr [], steps = Arr [Str ''boil''], currentStep = Undefined,
          tutorialUrl = Undefined, tutorialTitle = Undefined, tutorialSource = Undefined,
          ogImage = Undefined, ogTitle = Undefined, ogDescription = Undefined\<rparr>"
    by (cases r) (simp add: msg_def js_or_def)
  with r show ?thesis by (simp add: msg_def)
qed

text \<open>
  C8. While no recipe is displayed, \<^verbatim>\<open>recipe_refresh\<close>, \<^verbatim>\<open>step_update\<close> and
  \<^verbatim>\<open>recipe_update\<close> on topic \<^verbatim>\<open>recipe\<close> change nothing: the recipe stays
  \<^verbatim>\<open>null\<close> and the rest of the state is as it was.
\<close>

theorem recipe_messages_without_recipe:
  assumes "recipe st = None"
    and "own_prop msg ''type'' \<in> {Str ''recipe_refresh'', Str ''step_update'', Str ''recipe_update''}"
  shows "handleData conv now (Some msg) (Some ''recipe'') st = st"
proof -
  have nn: "\<not> nullish msg" using assms(2) by (auto simp: nullish_def)
  have same: "st\<lparr>recipe := None\<rparr> = st" using assms(1) by (cases st) simp
  have "recipe_branch msg st = Inr st"
    using assms by (auto simp: recipe_branch_def js_get_value [OF nn] same)
  then show ?thesis by (simp add: handleData_recipe [OF nn])
qed

theorem recipe_messages_without_recipe_witness:
  "handleData (\<lambda>v. NaN) 0 (Some (Obj [(''type'', Str ''step_update''), (''step_number'', Num (Fin 2))]))
      (Some ''recipe'') initial_state = initial_state
   \<and> handleData (\<lambda>v. NaN) 0 (Some (Obj [(''type'', Str ''recipe_refresh''), (''title'', Str ''Soup'')]))
      (Some ''recipe'') initial_state = initial_state
   \<and> handleData (\<lambda>v. NaN) 0 (Some (Obj [(''type'', Str ''recipe_update''), (''og_title'', Str ''Soup'')]))
      (Some ''recipe'') initial_state = initial_state"
proof -
  have n: "recipe initial_state = None" by (simp add: initial_state_def)
  show ?thesis
    by (intro conjI; rule recipe_messages_without_recipe [OF n]; simp)
qed

section \<open>The grocery list\<close>

text \<open>
  C7, as the code has it. On topic \<^verbatim>\<open>grocery_list\<close> with type
  \<^verbatim>\<open>grocery_list_update\<close> or \<^verbatim>\<open>grocery_list_show\<close>: when \<^verbatim>\<open>msg.items\<close>
  (the empty list when it is absent or falsy) is an array with no \<^verbatim>\<open>null\<close> entry,
  the whole grocery list is replaced by its entries, each with its recipe name
  defaulting to the empty string and its ingredients and checked lists to the empty
  list, and \<^verbatim>\<open>grocery_list_show\<close> also sets the open flag while
  \<^verbatim>\<open>grocery_list_update\<close> leaves it; when \<^verbatim>\<open>msg.items\<close> is anything else the
  message is ignored and the state is unchanged.
\<close>

theorem grocery_list_replaced:
  assumes "own_prop msg ''type'' \<in> {Str ''grocery_list_update'', Str ''grocery_list_show''}"
  shows "handleData conv now (Some msg) (Some ''grocery_list'') st =
     (case js_or (own_prop msg ''items'') (Arr []) of
        Arr xs \<Rightarrow>
          if list_ex nullish xs then st
          else st\<lparr>groceryList := map grocery_item_of xs,
                  groceryListOpen :=
                    (if own_prop msg ''type'' = Str ''grocery_list_show'' then True
                     else groceryListOpen st)\<rparr>
      | _ \<Rightarrow> st)
    \<and> (own_prop item ''recipe'' = Undefined \<longrightarrow> item_recipe (grocery_item_of item) = Str [])
    \<and> (own_prop item ''ingredients'' = Undefined \<longrightarrow> item_ingredients (grocery_item_of item) = Arr [])
    \<and> (own_prop item ''checked'' = Undefined \<longrightarrow> checked (grocery_item_of item) = Arr [])"
proof -
  have t: "own_prop msg ''type'' = Str ''grocery_list_update''
           \<or> own_prop msg ''type'' = Str ''grocery_list_show''"
    using assms by simp
  show ?thesis
    by (simp add: handleData_grocery_table [OF t] grocery_item_of_def js_or_def)
qed

theorem grocery_list_replaced_witness:
  "handleData (\<lambda>v. NaN) 0
      (Some (Obj [(''type'', Str ''grocery_list_show''),
                  (''items'', Arr [Obj [(''recipe'', Str ''Soup''),
                                        (''ingredients'', Arr [Str ''leek''])]])]))
      (Some ''grocery_list'') initial_state
    = initial_state\<lparr>groceryList := [\<lparr>item_recipe = Str ''Soup'',
                                       item_ingredients = Arr [Str ''leek''],
                                       checked = Arr []\<rparr>],
                     groceryListOpen := True\<rparr>
   \<and> handleData (\<lambda>v. NaN) 0 (Some (Obj [(''type'', Str ''grocery_list_update'')]))
      (Some ''grocery_list'')
      (initial_state\<lparr>groceryList := [\<lparr>item_recipe = Str ''Soup'', item_ingredients = Arr [],
                                       checked = Arr []\<rparr>]\<rparr>)
    = initial_state"
proof -
  have a: "handleData (\<lambda>v. NaN) 0
      (Some (Obj [(''type'', Str ''grocery_list_show''),
                  (''items'', Arr [Obj [(''recipe'', Str ''Soup''),
                                        (''ingredients'', Arr [Str ''leek''])]])]))
      (Some ''grocery_list'') initial_state
    = initial_state\<lparr>groceryList := [\<lparr>item_recipe = Str ''Soup'',
                                       item_ingredients = Arr [Str ''leek''],
                                       checked = Arr []\<rparr>],
                     groceryListOpen := True\<rparr>"
    by (subst conjunct1 [OF grocery_list_replaced])
       (simp_all add: js_or_def nullish_def grocery_item_of_def)
  have b: "handleData (\<lambda>v. NaN) 0 (Some (Obj [(''type'', Str ''grocery_list_update'')]))
      (Some ''grocery_list'')
      (initial_state\<lparr>groceryList := [\<lparr>item_recipe = Str ''Soup'', item_ingredients = Arr [],
                                       checked = Arr []\<rparr>]\<rparr>)
    = initial_state"
    by (subst conjunct1 [OF grocery_list_replaced])
       (simp_all add: js_or_def initial_state_def)
  from a b show ?thesis by simp
qed

text \<open>
  C7, as the spec has it, fails on a message whose \<^verbatim>\<open>items\<close> is not a list of
  objects: with \<^verbatim>\<open>items\<close> the number 5, or a list with a \<^verbatim>\<open>null\<close> in it,
  \<^verbatim>\<open>grocery_list_show\<close> neither replaces the grocery list nor sets the open flag.
\<close>

theorem grocery_list_show_counterexample:
  "groceryList (handleData (\<lambda>v. NaN) 0
      (Some (Obj [(''type'', Str ''grocery_list_show''), (''items'', Num (Fin 5))]))
      (Some ''grocery_list'')
      (initial_state\<lparr>groceryList := [\<lparr>item_recipe = Str ''Soup'', item_ingredients = Arr [],
                                       checked = Arr []\<rparr>]\<rparr>))
     = [\<lparr>item_recipe = Str ''Soup'', item_ingredients = Arr [], checked = Arr []\<rparr>]
   \<and> groceryListOpen (handleData (\<lambda>v. NaN) 0
      (Some (Obj [(''type'', Str ''grocery_list_show''), (''items'', Num (Fin 5))]))
      (Some ''grocery_list'')
      (initial_state\<lparr>groceryList := [\<lparr>item_recipe = Str ''Soup'', item_ingredients = Arr [],
                                       checked = Arr []\<rparr>]\<rparr>)) = False
   \<and> handleData (\<lambda>v. NaN) 0
      (Some (Obj [(''type'', Str ''grocery_list_show''),
                  (''items'', Arr [Obj [(''recipe'', Str ''Stew'')], Null])]))
      (Some ''grocery_list'') initial_state = initial_state"
  by (simp add: handleData_def try_body_def topic_and_type_def type_is_def js_get_def
      grocery_branch_def js_or_def to_grocery_item_def nullish_def initial_state_def)

section \<open>Toggling a grocery item\<close>

lemma toggle_array:
  assumes "i < length gl" and "checked (gl ! i) = Arr cs"
  shows "toggleGroceryItem i ing gl =
           Inr (gl[i := (gl ! i)\<lparr>checked :=
                  Arr (if Str ing \<in> set cs then filter (\<lambda>c. c \<noteq> Str ing) cs
                       else cs @ [Str ing])\<rparr>])"
  using assms by (simp add: toggleGroceryItem_def Let_def)

text \<open>
  C9, as the code has it. On a grocery list whose group \<open>i\<close> exists and has an array
  as its checked list, one toggle of an ingredient succeeds and changes the checked
  list of group \<open>i\<close> only: the recipe names, the ingredients lists and the other
  groups are as before. It flips the membership of that ingredient and of no other
  value. A second toggle of the same ingredient in the same group restores the checked
  list as a set, and with it the ingredient's membership.
\<close>

theorem toggleGroceryItem_involution:
  assumes "i < length gl" and "checked (gl ! i) = Arr cs"
  shows "\<exists>cs1 cs2.
           toggleGroceryItem i ing gl = Inr (gl[i := (gl ! i)\<lparr>checked := Arr cs1\<rparr>])
         \<and> toggleGroceryItem i ing (gl[i := (gl ! i)\<lparr>checked := Arr cs1\<rparr>])
              = Inr (gl[i := (gl ! i)\<lparr>checked := Arr cs2\<rparr>])
         \<and> (Str ing \<in> set cs1) = (Str ing \<notin> set cs)
         \<and> (\<forall>c. c \<noteq> Str ing \<longrightarrow> (c \<in> set cs1) = (c \<in> set cs))
         \<and> (Str ing \<in> set cs2) = (Str ing \<in> set cs)
         \<and> set cs2 = set cs"
proof -
  define cs1 where "cs1 = (if Str ing \<in> set cs then filter (\<lambda>c. c \<noteq> Str ing) cs else cs @ [Str ing])"
  define cs2 where "cs2 = (if Str ing \<in> set cs1 then filter (\<lambda>c. c \<noteq> Str ing) cs1 else cs1 @ [Str ing])"
  define gl1 where "gl1 = gl[i := (gl ! i)\<lparr>checked := Arr cs1\<rparr>]"
  have t1: "toggleGroceryItem i ing gl = Inr gl1"
    using toggle_array [OF assms, of ing] by (simp add: cs1_def gl1_def)
  have len: "i < length gl1" using assms(1) by (simp add: gl1_def)
  have chk: "checked (gl1 ! i) = Arr cs1" using assms(1) by (simp add: gl1_def)
  have "toggleGroceryItem i ing gl1 = Inr (gl1[i := (gl1 ! i)\<lparr>checked := Arr cs2\<rparr>])"
    using toggle_array [OF len chk, of ing] by (simp add: cs2_def)
  also have "gl1[i := (gl1 ! i)\<lparr>checked := Arr cs2\<rparr>] = gl[i := (gl ! i)\<lparr>checked := Arr cs2\<rparr>]"
    using assms(1) by (simp add: gl1_def)
  finally have t2: "toggleGroceryItem i ing gl1 = Inr (gl[i := (gl ! i)\<lparr>checked := Arr cs2\<rparr>])" .
  have m1: "(Str ing \<in> set cs1) = (Str ing \<notin> set cs)" by (simp add: cs1_def)
  have o1: "\<forall>c. c \<noteq> Str ing \<longrightarrow> (c \<in> set cs1) = (c \<in> set cs)" by (simp add: cs1_def)
  have s2: "set cs2 = set cs" by (auto simp: cs2_def cs1_def)
  from t1 t2 m1 o1 s2 show ?thesis unfolding gl1_def by blast
qed

theorem toggleGroceryItem_involution_witness:
  "toggleGroceryItem 1 ''leek''
      [\<lparr>item_recipe = Str ''Stew'', item_ingredients = Arr [Str ''beef''], checked = Arr []\<rparr>,
       \<lparr>item_recipe = Str ''Soup'', item_ingredients = Arr [Str ''leek'', Str ''salt''],
        checked = Arr [Str ''salt'']\<rparr>]
    = Inr [\<lparr>item_recipe = Str ''Stew'', item_ingredients = Arr [Str ''beef''], checked = Arr []\<rparr>,
           \<lparr>item_recipe = Str ''Soup'', item_ingredients = Arr [Str ''leek'', Str ''salt''],
            checked = Arr [Str ''salt'', Str ''leek'']\<rparr>]
   \<and> toggleGroceryItem 1 ''leek''
      [\<lparr>item_recipe = Str ''Stew'', item_ingredients = Arr [Str ''beef''], checked = Arr []\<rparr>,
       \<lparr>item_recipe = Str ''Soup'', item_ingredients = Arr [Str ''leek'', Str ''salt''],
        checked = Arr [Str ''salt'', Str ''leek'']\<rparr>]
    = Inr [\<lparr>item_recipe = Str ''Stew'', item_ingredients = Arr [Str ''beef''], checked = Arr []\<rparr>,
           \<lparr>item_recipe = Str ''Soup'', item_ingredients = Arr [Str ''leek'', Str ''salt''],
            checked = Arr [Str ''salt'']\<rparr>]"
proof -
  define gl where "gl =
      [\<lparr>item_recipe = Str ''Stew'', item_ingredients = Arr [Str ''beef''], checked = Arr []\<rparr>,
       \<lparr>item_recipe = Str ''Soup'', item_ingredients = Arr [Str ''leek'', Str ''salt''],
        checked = Arr [Str ''salt'']\<rparr>]"
  have i: "1 < length gl" by (simp add: gl_def)
  have c: "checked (gl ! 1) = Arr [Str ''salt'']" by (simp add: gl_def)
  from toggleGroceryItem_involution [OF i c, of "''leek''"]
  obtain cs1 cs2 where
    t1: "toggleGroceryItem 1 ''leek'' gl = Inr (gl[1 := (gl ! 1)\<lparr>checked := Arr cs1\<rparr>])"
    and t2: "toggleGroceryItem 1 ''leek'' (gl[1 := (gl ! 1)\<lparr>checked := Arr cs1\<rparr>])
              = Inr (gl[1 := (gl ! 1)\<lparr>checked := Arr cs2\<rparr>])"
    by blast
  have v1: "toggleGroceryItem 1 ''leek'' gl =
      Inr (gl[1 := (gl ! 1)\<lparr>checked := Arr [Str ''salt'', Str ''leek'']\<rparr>])"
    by (simp add: toggleGroceryItem_def gl_def)
  with t1 have cs1: "cs1 = [Str ''salt'', Str ''leek'']"
    by (simp add: gl_def)
  have v2: "toggleGroceryItem 1 ''leek'' (gl[1 := (gl ! 1)\<lparr>checked := Arr [Str ''salt'', Str ''leek'']\<rparr>])
         = Inr (gl[1 := (gl ! 1)\<lparr>checked := Arr [Str ''salt'']\<rparr>])"
    by (simp add: toggleGroceryItem_def gl_def)
  with t2 cs1 have "cs2 = [Str ''salt'']" by (simp add: gl_def)
  with t1 t2 cs1 show ?thesis by (simp add: gl_def)
qed


text \<open>
  C9, as the spec has it, fails on a grocery list that the data handler itself builds:
  it stores \<^verbatim>\<open>item.checked\<close> as it came, here the string \<open>salt\<close>. The list
  renders (a string has \<^verbatim>\<open>includes\<close>), and toggling \<open>salt\<close> throws, since a
  string has no \<^verbatim>\<open>filter\<close>: no membership is flipped or restored.
\<close>

theorem toggleGroceryItem_string_counterexample:
  "groceryList (handleData (\<lambda>v. NaN) 0
      (Some (Obj [(''type'', Str ''grocery_list_update''),
                  (''items'', Arr [Obj [(''recipe'', Str ''Soup''),
                                        (''ingredients'', Arr [Str ''salt'']),
                                        (''checked'', Str ''salt'')]])]))
      (Some ''grocery_list'') initial_state)
     = [\<lparr>item_recipe = Str ''Soup'', item_ingredients = Arr [Str ''salt''],
         checked = Str ''salt''\<rparr>]
   \<and> toggleGroceryItem 0 ''salt''
        [\<lparr>item_recipe = Str ''Soup'', item_ingredients = Arr [Str ''salt''],
          checked = Str ''salt''\<rparr>] = Inl TypeError"
proof -
  have a: "groceryList (handleData (\<lambda>v. NaN) 0
      (Some (Obj [(''type'', Str ''grocery_list_update''),
                  (''items'', Arr [Obj [(''recipe'', Str ''Soup''),
                                        (''ingredients'', Arr [Str ''salt'']),
                                        (''checked'', Str ''salt'')]])]))
      (Some ''grocery_list'') initial_state)
     = [\<lparr>item_recipe = Str ''Soup'', item_ingredients = Arr [Str ''salt''],
         checked = Str ''salt''\<rparr>]"
    by (subst handleData_grocery_table)
       (simp_all add: js_or_def nullish_def grocery_item_of_def)
  have b: "toggleGroceryItem 0 ''salt''
        [\<lparr>item_recipe = Str ''Soup'', item_ingredients = Arr [Str ''salt''],
          checked = Str ''salt''\<rparr>] = Inl TypeError"
    by (simp add: toggleGroceryItem_def)
  from a b show ?thesis by simp
qed

section \<open>The timer list\<close>

lemma js_gt_not_le: "js_gt a b \<Longrightarrow> \<not> js_le a b"
  by (cases a; cases b) auto

lemma expiry_check_timers:
  "timers (snd (expiry_check now st)) =
     (if list_ex (\<lambda>t. js_le (endsAt t) (Fin (of_int now))) (timers st)
      then filter (\<lambda>t. js_gt (endsAt t) (Fin (of_int now))) (timers st)
      else timers st)"
  by (auto simp: expiry_check_def Let_def list_ex_iff filter_empty_conv)

lemma expiry_check_frame:
  "snd (expiry_check now st) = st\<lparr>timers := timers (snd (expiry_check now st))\<rparr>"
  by (simp add: expiry_check_def Let_def)

text \<open>
  One run of the expiry check at time \<open>now\<close>: the alarm is played once for each
  timer whose deadline is at or before \<open>now\<close>, in the order of the list; none of these
  timers is in the list afterwards; the timers whose deadline is after \<open>now\<close> are all
  kept, as they were and in their order; and nothing but the timer list changes.
\<close>

lemma expiry_check_one_run:
  "fst (expiry_check now st) =
       map label (filter (\<lambda>t. js_le (endsAt t) (Fin (of_int now))) (timers st))
   \<and> list_all (\<lambda>t. \<not> js_le (endsAt t) (Fin (of_int now))) (timers (snd (expiry_check now st)))
   \<and> filter (\<lambda>t. js_gt (endsAt t) (Fin (of_int now))) (timers (snd (expiry_check now st)))
       = filter (\<lambda>t. js_gt (endsAt t) (Fin (of_int now))) (timers st)
   \<and> set (timers (snd (expiry_check now st))) \<subseteq> set (timers st)
   \<and> snd (expiry_check now st) = st\<lparr>timers := timers (snd (expiry_check now st))\<rparr>"
proof -
  let ?le = "\<lambda>t. js_le (endsAt t) (Fin (of_int now))"
  let ?gt = "\<lambda>t. js_gt (endsAt t) (Fin (of_int now))"
  have alarms: "fst (expiry_check now st) = map label (filter ?le (timers st))"
    by (simp add: expiry_check_def Let_def)
  have none_left: "list_all (\<lambda>t. \<not> ?le t) (timers (snd (expiry_check now st)))"
    by (auto simp: expiry_check_timers list_all_iff list_ex_iff js_gt_not_le)
  have kept: "filter ?gt (timers (snd (expiry_check now st))) = filter ?gt (timers st)"
    by (simp add: expiry_check_timers)
  have sub: "set (timers (snd (expiry_check now st))) \<subseteq> set (timers st)"
    by (auto simp: expiry_check_timers)
  from alarms none_left kept sub expiry_check_frame [of now st] show ?thesis by blast
qed

text \<open>
  C6 fails on the code. The claim is about a periodic check, and the code means one:
  the effect's dependency list reads \<^verbatim>\<open>[timers, /* ticked by setTick */]\<close>. But the
  tick is a comment there, the list is \<^verbatim>\<open>[timers]\<close>, and the tick's render does
  not run the effect. Here a one-second timer is added at time 0, so its deadline is
  1000; the effect runs after that render and finds nothing expired. At the tick at time
  5000 the timer has expired, a check would ring for it, but none is run: no alarm, and
  the timer stays in the list, where the countdown shows \<open>0:00\<close>.
\<close>

theorem tick_keeps_expired_timer:
  "timers (hook_state (snd (after_render 0
       (hook_addTimer (\<lambda>v. NaN) 0 (Str ''eggs'') (Num (Fin 1)) (snd (after_render 0 mount))))))
     = [\<lparr>timer_id = 0, label = Str ''eggs'', endsAt = Fin 1000, duration = Num (Fin 1)\<rparr>]
   \<and> fst (expiry_check 5000 (hook_state (snd (after_render 0
       (hook_addTimer (\<lambda>v. NaN) 0 (Str ''eggs'') (Num (Fin 1)) (snd (after_render 0 mount)))))))
     = [Str ''eggs'']
   \<and> tick 5000 (snd (after_render 0
       (hook_addTimer (\<lambda>v. NaN) 0 (Str ''eggs'') (Num (Fin 1)) (snd (after_render 0 mount)))))
     = ([], snd (after_render 0
       (hook_addTimer (\<lambda>v. NaN) 0 (Str ''eggs'') (Num (Fin 1)) (snd (after_render 0 mount)))))
   \<and> formatTimeLeft (\<lambda>i. []) (Fin 1000) 5000 = ''0:00''"
proof -
  define h where "h = snd (after_render 0
       (hook_addTimer (\<lambda>v. NaN) 0 (Str ''eggs'') (Num (Fin 1)) (snd (after_render 0 mount))))"
  have r1: "round_double 1000 = Fin 1000" using round_double_of_int [of 1000] by simp
  have hv: "h = \<lparr>hook_state = initial_state\<lparr>timers :=
                    [\<lparr>timer_id = 0, label = Str ''eggs'', endsAt = Fin 1000,
                      duration = Num (Fin 1)\<rparr>], nextId := 1\<rparr>,
                 timers_ref = 1, effect_ref = Some 1\<rparr>"
    by (simp add: h_def after_render_def mount_def hook_addTimer_def addTimer_def
        expiry_check_def initial_state_def r1)
  have a: "timers (hook_state h) =
      [\<lparr>timer_id = 0, label = Str ''eggs'', endsAt = Fin 1000, duration = Num (Fin 1)\<rparr>]"
    by (simp add: hv)
  have b: "fst (expiry_check 5000 (hook_state h)) = [Str ''eggs'']"
    by (simp add: hv expiry_check_def)
  have c: "tick 5000 h = ([], h)"
    by (simp add: hv tick_def after_render_def)
  have "is_double 1000 \<and> \<bar>1000 :: rat\<bar> < 2 ^ 53 \<and> (0::int) < 5000 \<and> (5000::int) < 2 ^ 53"
    using is_double_of_int [of 1000] by simp
  moreover have "(1000::rat) \<le> of_int 5000" by simp
  ultimately have d: "formatTimeLeft (\<lambda>i. []) (Fin 1000) 5000 = ''0:00''"
    using expired_shows_zero [of 1000 5000 "\<lambda>i. []"] by blast
  from a b c d show ?thesis unfolding h_def by blast
qed

lemma tick_skips_effect:
  "effect_ref h = Some (timers_ref h) \<Longrightarrow> tick now h = ([], h)"
  by (simp add: tick_def after_render_def)











section \<open>The token endpoint: the two outcomes\<close>

text \<open>
  C2. When one of \<^verbatim>\<open>LIVEKIT_API_KEY\<close>, \<^verbatim>\<open>LIVEKIT_API_SECRET\<close> and
  \<^verbatim>\<open>LIVEKIT_URL\<close> is missing or empty, the endpoint answers with status 500 and a
  JSON body that holds an error message, and has no token made. Otherwise all three
  are set, and it answers with status 200 and a JSON body whose \<^verbatim>\<open>token\<close> is the
  one token it had made in this request, with the configured key and secret, and whose
  \<^verbatim>\<open>url\<close> is the value of \<^verbatim>\<open>LIVEKIT_URL\<close>.
\<close>

theorem GET_outcomes:
  "(unset (LIVEKIT_API_KEY e) \<or> unset (LIVEKIT_API_SECRET e) \<or> unset (LIVEKIT_URL e) \<longrightarrow>
      GET toJwt big now rnd e =
        (\<lparr>status = 500, body = Obj [(''error'', Str ''LiveKit credentials not configured'')]\<rparr>, []))
   \<and> (\<not> (unset (LIVEKIT_API_KEY e) \<or> unset (LIVEKIT_API_SECRET e) \<or> unset (LIVEKIT_URL e)) \<longrightarrow>
      (\<exists>k s u tok. LIVEKIT_API_KEY e = Some k \<and> LIVEKIT_API_SECRET e = Some s \<and> LIVEKIT_URL e = Some u
         \<and> apiKey tok = k \<and> apiSecret tok = s
         \<and> GET toJwt big now rnd e =
             (\<lparr>status = 200, body = Obj [(''token'', Str (toJwt tok)), (''url'', Str u)]\<rparr>, [tok])))"
proof (cases "unset (LIVEKIT_API_KEY e) \<or> unset (LIVEKIT_API_SECRET e) \<or> unset (LIVEKIT_URL e)")
  case True
  then show ?thesis by (simp add: GET_def)
next
  case False
  then obtain k s u where
    ks: "LIVEKIT_API_KEY e = Some k" "LIVEKIT_API_SECRET e = Some s" "LIVEKIT_URL e = Some u"
    by (cases "LIVEKIT_API_KEY e"; cases "LIVEKIT_API_SECRET e"; cases "LIVEKIT_URL e") auto
  define tok where "tok =
     \<lparr>apiKey = k, apiSecret = s, identity = ''user-'' @ rnd,
      grants = [\<lparr>roomJoin = True, room = ''chef-claude-'' @ toString big (Fin now),
                 canPublish = True, canSubscribe = True\<rparr>]\<rparr>"
  have "GET toJwt big now rnd e =
          (\<lparr>status = 200, body = Obj [(''token'', Str (toJwt tok)), (''url'', Str u)]\<rparr>, [tok])"
    using False ks by (simp add: GET_def tok_def Let_def)
  moreover have "apiKey tok = k" "apiSecret tok = s" by (simp_all add: tok_def)
  ultimately show ?thesis using False ks by blast
qed

theorem GET_outcomes_witness:
  "GET (\<lambda>a. identity a @ ''@'' @ room (hd (grants a))) (\<lambda>i. []) 1700 ''ab1cd''
      \<lparr>LIVEKIT_API_KEY = Some ''key'', LIVEKIT_API_SECRET = Some '''', LIVEKIT_URL = Some ''wss://kitchen''\<rparr>
    = (\<lparr>status = 500, body = Obj [(''error'', Str ''LiveKit credentials not configured'')]\<rparr>, [])
   \<and> fst (GET (\<lambda>a. identity a @ ''@'' @ room (hd (grants a))) (\<lambda>i. []) 1700 ''ab1cd''
      \<lparr>LIVEKIT_API_KEY = Some ''key'', LIVEKIT_API_SECRET = Some ''secret'',
        LIVEKIT_URL = Some ''wss://kitchen''\<rparr>)
    = \<lparr>status = 200, body = Obj [(''token'', Str ''user-ab1cd@chef-claude-1700''),
                                 (''url'', Str ''wss://kitchen'')]\<rparr>"
proof -
  define e0 where "e0 = \<lparr>LIVEKIT_API_KEY = Some ''key'', LIVEKIT_API_SECRET = Some '''',
      LIVEKIT_URL = Some ''wss://kitchen''\<rparr>"
  define e1 where "e1 = \<lparr>LIVEKIT_API_KEY = Some ''key'', LIVEKIT_API_SECRET = Some ''secret'',
      LIVEKIT_URL = Some ''wss://kitchen''\<rparr>"
  define mint :: "access_token \<Rightarrow> string" where "mint = (\<lambda>a. identity a @ ''@'' @ room (hd (grants a)))"
  have "unset (LIVEKIT_API_KEY e0) \<or> unset (LIVEKIT_API_SECRET e0) \<or> unset (LIVEKIT_URL e0)"
    by (simp add: e0_def)
  with GET_outcomes [of e0 mint "\<lambda>i. []" 1700 "''ab1cd''"]
  have a: "GET mint (\<lambda>i. []) 1700 ''ab1cd'' e0 =
     (\<lparr>status = 500, body = Obj [(''error'', Str ''LiveKit credentials not configured'')]\<rparr>, [])"
    by blast
  have "\<not> (unset (LIVEKIT_API_KEY e1) \<or> unset (LIVEKIT_API_SECRET e1) \<or> unset (LIVEKIT_URL e1))"
    by (simp add: e1_def)
  with GET_outcomes [of e1 mint "\<lambda>i. []" 1700 "''ab1cd''"]
  obtain u tok where u: "LIVEKIT_URL e1 = Some u"
    and g0: "GET mint (\<lambda>i. []) 1700 ''ab1cd'' e1 =
        (\<lparr>status = 200, body = Obj [(''token'', Str (mint tok)), (''url'', Str u)]\<rparr>, [tok])"
    by blast
  from u have "u = ''wss://kitchen''" by (simp add: e1_def)
  with g0 have g: "GET mint (\<lambda>i. []) 1700 ''ab1cd'' e1 =
        (\<lparr>status = 200, body = Obj [(''token'', Str (mint tok)), (''url'', Str ''wss://kitchen'')]\<rparr>, [tok])"
    by simp
  have "snd (GET mint (\<lambda>i. []) 1700 ''ab1cd'' e1) =
      [\<lparr>apiKey = ''key'', apiSecret = ''secret'', identity = ''user-ab1cd'',
        grants = [\<lparr>roomJoin = True, room = ''chef-claude-1700'',
                   canPublish = True, canSubscribe = True\<rparr>]\<rparr>]"
    by (simp add: GET_def e1_def Let_def digits.simps digit_chars)
  with g have "mint tok = ''user-ab1cd@chef-claude-1700''"
    by (simp add: mint_def)
  with g have b: "fst (GET mint (\<lambda>i. []) 1700 ''ab1cd'' e1) =
      \<lparr>status = 200, body = Obj [(''token'', Str ''user-ab1cd@chef-claude-1700''),
                                 (''url'', Str ''wss://kitchen'')]\<rparr>"
    by simp
  from a b show ?thesis unfolding e0_def e1_def mint_def by simp
qed

end
